theory Spec2Isabelle
  imports Complex_Main "HOL-Library.AList" "HOL-Library.Sublist"
begin

section \<open>The track repository of music-tracks-api (src/utils/db.ts)\<close>

text \<open>
  The repository keeps one JSON file per track in a directory, one audio file per track
  in a second directory and one JSON file with the genre names. The model below follows
  \<^verbatim>\<open>src/utils/db.ts\<close> function by function. What the code takes from its
  environment is made explicit:
  \<^item> the file system is a record \<open>fs\<close> that every operation reads and the writing
    operations return updated; it also holds the two directory paths of the configuration;
  \<^item> a path is built as the code builds it, with \<^verbatim>\<open>path.join\<close>, which resolves
    the segments \<^verbatim>\<open>.\<close> and \<^verbatim>\<open>..\<close> of an id or a file name;
  \<^item> a failing file-system call is a value \<open>Inl IOFailure\<close>; which calls fail is
    decided by the state: a file that is absent cannot be read or unlinked, and the
    component \<open>denied\<close> lists the accesses that the operating system refuses;
  \<^item> \<^verbatim>\<open>Date.now()\<close> and \<^verbatim>\<open>new Date().toISOString()\<close> are
    arguments (\<open>ms\<close>, \<open>now\<close>) of the operations that read the clock;
  \<^item> every operation returns \<open>error + 'a\<close>, \<open>Inl\<close> for a raised exception, and a
    \<^verbatim>\<open>try { ... } catch\<close> block is a case distinction on the result of its body.
\<close>

subsection \<open>Data model (src/types/index.ts)\<close>

text \<open>
  \<^verbatim>\<open>Omit<Track, 'id' | 'createdAt' | 'updatedAt'>\<close> is the record \<open>track_draft\<close>, and
  \<^verbatim>\<open>Track\<close> extends it. An optional field is an \<open>option\<close>; \<open>None\<close> stands
  for a key that is absent or \<^verbatim>\<open>undefined\<close> (JSON.stringify drops both). The
  field \<^verbatim>\<open>id\<close> is named \<open>id_f\<close>.
\<close>

record track_draft =
  title :: string
  artist :: string
  album :: "string option"
  genres :: "string list"
  slug :: string
  coverImage :: "string option"
  audioFile :: "string option"

record track = track_draft +
  id_f :: string
  createdAt :: string
  updatedAt :: string

text \<open>
  \<^verbatim>\<open>Partial<Track>\<close>: \<open>None\<close> is a key that the object does not have. For the
  optional fields of \<^verbatim>\<open>Track\<close> the key may be present with the value
  \<^verbatim>\<open>undefined\<close> (\<open>Some None\<close>), as in
  \<^verbatim>\<open>updateTrack(id, { audioFile: undefined })\<close>. A required field that is present
  with the value \<^verbatim>\<open>undefined\<close> is outside the model: the record it produces is not
  a \<^verbatim>\<open>Track\<close>.
\<close>

record track_update =
  upd_id :: "string option"
  upd_title :: "string option"
  upd_artist :: "string option"
  upd_album :: "string option option"
  upd_genres :: "string list option"
  upd_slug :: "string option"
  upd_coverImage :: "string option option"
  upd_audioFile :: "string option option"
  upd_createdAt :: "string option"
  upd_updatedAt :: "string option"

datatype sort_field = Title | Artist | Album | CreatedAt

datatype sort_order = Asc | Desc

text \<open>
  \<^verbatim>\<open>QueryParams\<close>. The fields \<^verbatim>\<open>sort\<close>, \<^verbatim>\<open>order\<close> and
  \<^verbatim>\<open>artist\<close> carry the suffix \<open>_param\<close>. A \<^verbatim>\<open>number\<close> is a real
  number, so that a page or a limit may be negative or a fraction; \<^verbatim>\<open>NaN\<close> and the
  infinities are outside the model, and arithmetic is exact (on integers the doubles of the
  code are exact as well).
\<close>

record QueryParams =
  page :: "real option"
  limit :: "real option"
  sort_param :: "sort_field option"
  order_param :: "sort_order option"
  search :: "string option"
  genre :: "string option"
  artist_param :: "string option"

record GetTracksResult =
  tracks :: "track list"
  total :: nat

record BatchDeleteResponse =
  success :: "string list"
  failed :: "string list"

subsection \<open>The file system\<close>

datatype error = IOFailure | SyntaxError

text \<open>
  The text of a file is either the JSON serialisation of a value (\<open>Json v\<close>, so that
  \<^verbatim>\<open>JSON.parse(JSON.stringify(v))\<close> is \<open>v\<close>) or a text that
  \<^verbatim>\<open>JSON.parse\<close> rejects, as an audio file is. A file that holds JSON and that a
  track operation reads is assumed to hold an object of type \<^verbatim>\<open>Track\<close>, as the
  casts of the source do; the genre file, which holds a list of strings, is kept apart from
  the other files.
\<close>

datatype 'a json_text = Json 'a | NotJson

text \<open>
  A path is absolute and normalised: the list of its segments from the root.
  \<^verbatim>\<open>path.join(dir, name)\<close> (POSIX) appends the segments of \<open>name\<close> to the directory:
  an empty segment and \<^verbatim>\<open>.\<close> are dropped, \<^verbatim>\<open>..\<close> removes the last segment
  (the root is its own parent), and a trailing separator is kept, here as a last segment
  that is empty, which no file has.
\<close>

type_synonym path = "string list"

fun splitSlash :: "string \<Rightarrow> string list" where
  "splitSlash [] = [[]]"
| "splitSlash (c # cs) =
     (if c = CHR ''/'' then [] # splitSlash cs
      else (case splitSlash cs of [] \<Rightarrow> [[c]] | seg # segs \<Rightarrow> (c # seg) # segs))"

definition normalizeSegment :: "path \<Rightarrow> string \<Rightarrow> path" where
  "normalizeSegment p seg =
     (if seg = [] \<or> seg = ''.'' then p else if seg = ''..'' then butlast p else p @ [seg])"

definition path_join :: "path \<Rightarrow> string \<Rightarrow> path" where
  "path_join dir name =
     (let p = foldl normalizeSegment dir (splitSlash name)
      in if name \<noteq> [] \<and> last name = CHR ''/'' \<and> p \<noteq> [] then p @ [[]] else p)"

datatype target = Directory path | File path | GenresFile

datatype access = ReadA | WriteA | UnlinkA

text \<open>
  \<open>disk\<close> lists the regular files of the disk other than the genre file, each under its
  path, in the order in which \<^verbatim>\<open>fs.readdir\<close> meets them; directories are the proper
  prefixes of these paths. \<open>TRACKS_DIR\<close> and \<open>UPLOADS_DIR\<close> are the constants of the same
  names, which the source takes from the configuration. Writing a file that exists
  replaces its content in place, and a new file is listed last (the operating system does
  not fix the position). Reading or unlinking a path that is not a file fails, writing
  fails where the path is a directory or runs through a file, and every access that
  \<open>denied\<close> refuses fails (a missing directory, a missing permission, a full disk); a
  failing call leaves the store unchanged. A name with a NUL character, which
  \<^verbatim>\<open>fs\<close> refuses, names a file that is absent, since no file has such a name.
  File names are compared character by character and there are no links, so that two
  paths name the same file only when they are equal.
\<close>

record fs =
  TRACKS_DIR :: path
  UPLOADS_DIR :: path
  disk :: "(path \<times> track json_text) list"
  genresFile :: "string list json_text option"
  denied :: "access \<Rightarrow> target \<Rightarrow> bool"

definition fs_readdir :: "fs \<Rightarrow> path \<Rightarrow> error + string list" where
  "fs_readdir s dir =
     (if denied s ReadA (Directory dir) then Inl IOFailure
      else Inr (remdups (map (\<lambda>p. p ! length dir) (filter (strict_prefix dir) (map fst (disk s))))))"

definition fs_readFile :: "fs \<Rightarrow> path \<Rightarrow> error + track json_text" where
  "fs_readFile s p =
     (if denied s ReadA (File p) then Inl IOFailure
      else case map_of (disk s) p of None \<Rightarrow> Inl IOFailure | Some c \<Rightarrow> Inr c)"

definition fs_writeFile :: "fs \<Rightarrow> path \<Rightarrow> track json_text \<Rightarrow> (error + unit) \<times> fs" where
  "fs_writeFile s p c =
     (if denied s WriteA (File p)
         \<or> list_ex (\<lambda>q. strict_prefix p q \<or> strict_prefix q p) (map fst (disk s))
      then (Inl IOFailure, s)
      else (Inr (), s\<lparr>disk := AList.update p c (disk s)\<rparr>))"

definition fs_unlink :: "fs \<Rightarrow> path \<Rightarrow> (error + unit) \<times> fs" where
  "fs_unlink s p =
     (if denied s UnlinkA (File p) \<or> map_of (disk s) p = None then (Inl IOFailure, s)
      else (Inr (), s\<lparr>disk := AList.delete p (disk s)\<rparr>))"

definition fs_readGenresFile :: "fs \<Rightarrow> error + string list json_text" where
  "fs_readGenresFile s =
     (if denied s ReadA GenresFile then Inl IOFailure
      else case genresFile s of None \<Rightarrow> Inl IOFailure | Some c \<Rightarrow> Inr c)"

fun JSON_parse :: "'a json_text \<Rightarrow> error + 'a" where
  "JSON_parse (Json v) = Inr v"
| "JSON_parse NotJson = Inl SyntaxError"

subsection \<open>The JavaScript library functions that the repository calls\<close>

text \<open>
  Strings are lists of characters. \<^verbatim>\<open>String.prototype.includes\<close> is the test for
  a contiguous sublist, \<^verbatim>\<open>endsWith\<close> the test for a suffix.
  \<^verbatim>\<open>toLowerCase\<close> is modelled on the ASCII letters, and
  \<^verbatim>\<open>localeCompare\<close> by the lexicographic order of the character codes, which is
  the locale's order on words of lower-case ASCII letters.
\<close>

definition toLowerCase :: "string \<Rightarrow> string" where
  "toLowerCase s =
     map (\<lambda>c. let n = (of_char c :: nat) in if 65 \<le> n \<and> n \<le> 90 then char_of (n + 32) else c) s"

definition includes_str :: "string \<Rightarrow> string \<Rightarrow> bool" where
  "includes_str s t = sublist t s"

definition endsWith :: "string \<Rightarrow> string \<Rightarrow> bool" where
  "endsWith s t = suffix t s"

fun localeCompare :: "string \<Rightarrow> string \<Rightarrow> int" where
  "localeCompare [] [] = 0"
| "localeCompare [] (y # ys) = - 1"
| "localeCompare (x # xs) [] = 1"
| "localeCompare (x # xs) (y # ys) =
     (if (of_char x :: nat) < of_char y then - 1
      else if (of_char y :: nat) < of_char x then 1
      else localeCompare xs ys)"

text \<open>\<^verbatim>\<open>Number.prototype.toString\<close> on a natural number: its decimal digits.\<close>

fun toString :: "nat \<Rightarrow> string" where
  "toString n =
     (if n < 10 then [char_of (48 + n)] else toString (n div 10) @ [char_of (48 + n mod 10)])"

declare toString.simps [simp del]

text \<open>
  \<^verbatim>\<open>new Date(s).getTime()\<close>, for the format that \<^verbatim>\<open>toISOString\<close> writes,
  \<^verbatim>\<open>YYYY-MM-DDTHH:mm:ss.sssZ\<close>: the milliseconds since 1970-01-01T00:00:00.000Z. Any
  other string is taken to be an invalid date, whose time is \<^verbatim>\<open>NaN\<close>: \<open>None\<close>.
\<close>

definition digitVal :: "char \<Rightarrow> nat option" where
  "digitVal c = (let n = (of_char c :: nat) in if 48 \<le> n \<and> n \<le> 57 then Some (n - 48) else None)"

fun digitsVal :: "string \<Rightarrow> nat option" where
  "digitsVal [] = Some 0"
| "digitsVal (c # cs) =
     (case digitVal c of None \<Rightarrow> None
      | Some d \<Rightarrow> (case digitsVal cs of None \<Rightarrow> None | Some r \<Rightarrow> Some (d * 10 ^ length cs + r)))"

definition isLeapYear :: "nat \<Rightarrow> bool" where
  "isLeapYear y = (y mod 4 = 0 \<and> (y mod 100 \<noteq> 0 \<or> y mod 400 = 0))"

definition daysInMonth :: "nat \<Rightarrow> nat \<Rightarrow> nat" where
  "daysInMonth y m =
     (if m = 2 then (if isLeapYear y then 29 else 28)
      else if m = 4 \<or> m = 6 \<or> m = 9 \<or> m = 11 then 30 else 31)"

definition daysFromCivil :: "nat \<Rightarrow> nat \<Rightarrow> nat \<Rightarrow> int" where
  "daysFromCivil y m d =
     (let y' = (if m \<le> 2 then int y - 1 else int y);
          era = y' div 400;
          yoe = y' - era * 400;
          mp = (if m > 2 then int m - 3 else int m + 9);
          doy = (153 * mp + 2) div 5 + int d - 1;
          doe = yoe * 365 + yoe div 4 - yoe div 100 + doy
      in era * 146097 + doe - 719468)"

definition Date_getTime :: "string \<Rightarrow> int option" where
  "Date_getTime s =
     (if length s = 24 \<and> s ! 4 = CHR ''-'' \<and> s ! 7 = CHR ''-'' \<and> s ! 10 = CHR ''T''
         \<and> s ! 13 = CHR '':'' \<and> s ! 16 = CHR '':'' \<and> s ! 19 = CHR ''.'' \<and> s ! 23 = CHR ''Z''
      then
        (case (digitsVal (take 4 s), digitsVal (take 2 (drop 5 s)), digitsVal (take 2 (drop 8 s)),
               digitsVal (take 2 (drop 11 s)), digitsVal (take 2 (drop 14 s)),
               digitsVal (take 2 (drop 17 s)), digitsVal (take 3 (drop 20 s))) of
           (Some y, Some m, Some d, Some h, Some mi, Some sec, Some f) \<Rightarrow>
             (if 1 \<le> m \<and> m \<le> 12 \<and> 1 \<le> d \<and> d \<le> daysInMonth y m \<and> h \<le> 23 \<and> mi \<le> 59 \<and> sec \<le> 59
              then Some ((((daysFromCivil y m d * 24 + int h) * 60 + int mi) * 60 + int sec) * 1000 + int f)
              else None)
         | _ \<Rightarrow> None)
      else None)"

text \<open>
  \<^verbatim>\<open>Array.prototype.sort\<close> with a comparator. The sort of ECMAScript is stable, and
  a comparator result that is \<^verbatim>\<open>NaN\<close> (\<open>None\<close>) counts as \<open>0\<close>. For a consistent
  comparator every stable sort returns the same array; it is modelled by insertion from
  the right. \<open>x\<close> is placed behind \<open>y\<close> only when the comparator puts it strictly after.
\<close>

fun js_insert :: "('a \<Rightarrow> 'a \<Rightarrow> int option) \<Rightarrow> 'a \<Rightarrow> 'a list \<Rightarrow> 'a list" where
  "js_insert cmp x [] = [x]"
| "js_insert cmp x (y # ys) =
     (if (case cmp x y of None \<Rightarrow> False | Some v \<Rightarrow> 0 < v) then y # js_insert cmp x ys
      else x # y # ys)"

definition js_sort :: "('a \<Rightarrow> 'a \<Rightarrow> int option) \<Rightarrow> 'a list \<Rightarrow> 'a list" where
  "js_sort cmp xs = foldr (js_insert cmp) xs []"

text \<open>
  \<^verbatim>\<open>Array.prototype.slice(start, end)\<close>: each index is cut to an integer, towards
  zero (\<^verbatim>\<open>ToIntegerOrInfinity\<close>); a negative index counts from the end of the array,
  and both indices are clamped to the array.
\<close>

definition ToIntegerOrInfinity :: "real \<Rightarrow> int" where
  "ToIntegerOrInfinity x = (if 0 \<le> x then \<lfloor>x\<rfloor> else \<lceil>x\<rceil>)"

definition js_slice :: "'a list \<Rightarrow> real \<Rightarrow> real \<Rightarrow> 'a list" where
  "js_slice xs start end0 =
     (let len = int (length xs);
          relativeStart = ToIntegerOrInfinity start;
          k = (if relativeStart < 0 then max (len + relativeStart) 0 else min relativeStart len);
          relativeEnd = ToIntegerOrInfinity end0;
          final = (if relativeEnd < 0 then max (len + relativeEnd) 0 else min relativeEnd len)
      in take (nat (final - k)) (drop (nat k) xs))"

subsection \<open>Truthiness\<close>

text \<open>
  \<^verbatim>\<open>if (v)\<close> on an optional string holds when the string is present and not empty;
  \<^verbatim>\<open>v || ''\<close> is the string, or the empty string when it is absent.
\<close>

definition truthy :: "string option \<Rightarrow> bool" where
  "truthy v = (case v of None \<Rightarrow> False | Some s \<Rightarrow> s \<noteq> [])"

definition orEmpty :: "string option \<Rightarrow> string" where
  "orEmpty v = (case v of None \<Rightarrow> [] | Some s \<Rightarrow> s)"

subsection \<open>getGenres\<close>

definition getGenres_try :: "fs \<Rightarrow> error + string list" where
  "getGenres_try s =
     (case fs_readGenresFile s of Inl e \<Rightarrow> Inl e | Inr data \<Rightarrow> JSON_parse data)"

definition getGenres :: "fs \<Rightarrow> error + string list" where
  "getGenres s = (case getGenres_try s of Inl e \<Rightarrow> Inr [] | Inr gs \<Rightarrow> Inr gs)"

subsection \<open>getTracks\<close>

text \<open>The loop that reads and parses every file of the directory whose name ends in .json.\<close>

fun readTracks :: "fs \<Rightarrow> string list \<Rightarrow> error + track list" where
  "readTracks s [] = Inr []"
| "readTracks s (file # files) =
     (if endsWith file ''.json'' then
        (case fs_readFile s (path_join (TRACKS_DIR s) file) of
           Inl e \<Rightarrow> Inl e
         | Inr content \<Rightarrow>
             (case JSON_parse content of
                Inl e \<Rightarrow> Inl e
              | Inr t \<Rightarrow> (case readTracks s files of Inl e \<Rightarrow> Inl e | Inr ts \<Rightarrow> Inr (t # ts))))
      else readTracks s files)"

text \<open>
  \<^verbatim>\<open>a[sortField] || ''\<close>. Every sort field of a \<^verbatim>\<open>Track\<close> is a string, so
  the comparator always takes its \<^verbatim>\<open>localeCompare\<close> branch.
\<close>

definition fieldValue :: "sort_field \<Rightarrow> track \<Rightarrow> string" where
  "fieldValue f t =
     (case f of Title \<Rightarrow> title t | Artist \<Rightarrow> artist t | Album \<Rightarrow> orEmpty (album t)
      | CreatedAt \<Rightarrow> createdAt t)"

text \<open>The subtraction of two times; it is \<^verbatim>\<open>NaN\<close> when one of them is.\<close>

definition number_minus :: "int option \<Rightarrow> int option \<Rightarrow> int option" where
  "number_minus a b =
     (case a of None \<Rightarrow> None | Some x \<Rightarrow> (case b of None \<Rightarrow> None | Some y \<Rightarrow> Some (x - y)))"

definition sortTracks :: "QueryParams \<Rightarrow> track list \<Rightarrow> track list" where
  "sortTracks params ts =
     (case sort_param params of
        Some sortField \<Rightarrow>
          (let sortOrder = (case order_param params of None \<Rightarrow> Asc | Some ord \<Rightarrow> ord)
           in js_sort (\<lambda>a b.
                 let valueA = fieldValue sortField a; valueB = fieldValue sortField b
                 in Some (if sortOrder = Asc then localeCompare valueA valueB
                          else localeCompare valueB valueA)) ts)
      | None \<Rightarrow>
          js_sort (\<lambda>a b. number_minus (Date_getTime (createdAt b)) (Date_getTime (createdAt a))) ts)"

definition getTracks_try :: "fs \<Rightarrow> QueryParams \<Rightarrow> error + GetTracksResult" where
  "getTracks_try s params =
     (case fs_readdir s (TRACKS_DIR s) of
        Inl e \<Rightarrow> Inl e
      | Inr files \<Rightarrow>
          (case readTracks s files of
             Inl e \<Rightarrow> Inl e
           | Inr tracks0 \<Rightarrow>
               (let tracks1 =
                      (case search params of
                         None \<Rightarrow> tracks0
                       | Some needle \<Rightarrow>
                           if needle = [] then tracks0
                           else (let searchLower = toLowerCase needle
                                 in filter (\<lambda>t.
                                      includes_str (toLowerCase (title t)) searchLower
                                      \<or> includes_str (toLowerCase (artist t)) searchLower
                                      \<or> (case album t of None \<Rightarrow> False
                                          | Some a \<Rightarrow> a \<noteq> [] \<and> includes_str (toLowerCase a) searchLower))
                                    tracks0));
                    tracks2 =
                      (case genre params of
                         None \<Rightarrow> tracks1
                       | Some g \<Rightarrow> if g = [] then tracks1 else filter (\<lambda>t. g \<in> set (genres t)) tracks1);
                    tracks3 =
                      (case artist_param params of
                         None \<Rightarrow> tracks2
                       | Some a \<Rightarrow>
                           if a = [] then tracks2
                           else (let artistLower = toLowerCase a
                                 in filter (\<lambda>t. includes_str (toLowerCase (artist t)) artistLower) tracks2));
                    tracks4 = sortTracks params tracks3;
                    total0 = length tracks4;
                    page0 = (case page params of None \<Rightarrow> 1 | Some p \<Rightarrow> if p = 0 then 1 else p);
                    limit0 = (case limit params of None \<Rightarrow> 10 | Some l \<Rightarrow> if l = 0 then 10 else l);
                    start = (page0 - 1) * limit0;
                    end0 = start + limit0
                in Inr \<lparr>tracks = js_slice tracks4 start end0, total = total0\<rparr>)))"

definition getTracks :: "fs \<Rightarrow> QueryParams \<Rightarrow> error + GetTracksResult" where
  "getTracks s params =
     (case getTracks_try s params of Inl e \<Rightarrow> Inr \<lparr>tracks = [], total = 0\<rparr> | Inr r \<Rightarrow> Inr r)"

subsection \<open>getTrackBySlug and getTrackById\<close>

fun getTrackBySlug_loop :: "fs \<Rightarrow> string \<Rightarrow> string list \<Rightarrow> error + track option" where
  "getTrackBySlug_loop s sl [] = Inr None"
| "getTrackBySlug_loop s sl (file # files) =
     (if endsWith file ''.json'' then
        (case fs_readFile s (path_join (TRACKS_DIR s) file) of
           Inl e \<Rightarrow> Inl e
         | Inr content \<Rightarrow>
             (case JSON_parse content of
                Inl e \<Rightarrow> Inl e
              | Inr t \<Rightarrow> if slug t = sl then Inr (Some t) else getTrackBySlug_loop s sl files))
      else getTrackBySlug_loop s sl files)"

definition getTrackBySlug_try :: "fs \<Rightarrow> string \<Rightarrow> error + track option" where
  "getTrackBySlug_try s sl =
     (case fs_readdir s (TRACKS_DIR s) of
        Inl e \<Rightarrow> Inl e
      | Inr files \<Rightarrow> getTrackBySlug_loop s sl files)"

definition getTrackBySlug :: "fs \<Rightarrow> string \<Rightarrow> error + track option" where
  "getTrackBySlug s sl = (case getTrackBySlug_try s sl of Inl e \<Rightarrow> Inr None | Inr r \<Rightarrow> Inr r)"

definition getTrackById_try :: "fs \<Rightarrow> string \<Rightarrow> error + track" where
  "getTrackById_try s i =
     (case fs_readFile s (path_join (TRACKS_DIR s) (i @ ''.json'')) of
        Inl e \<Rightarrow> Inl e
      | Inr content \<Rightarrow> JSON_parse content)"

definition getTrackById :: "fs \<Rightarrow> string \<Rightarrow> error + track option" where
  "getTrackById s i = (case getTrackById_try s i of Inl e \<Rightarrow> Inr None | Inr t \<Rightarrow> Inr (Some t))"

subsection \<open>createTrack and updateTrack\<close>

text \<open>\<open>ms\<close> is the value of \<^verbatim>\<open>Date.now()\<close>, \<open>now\<close> that of \<^verbatim>\<open>new Date().toISOString()\<close>.\<close>

definition createTrack :: "fs \<Rightarrow> nat \<Rightarrow> string \<Rightarrow> track_draft \<Rightarrow> (error + track) \<times> fs" where
  "createTrack s ms now d =
     (let i = toString ms;
          newTrack = \<lparr>title = title d, artist = artist d, album = album d, genres = genres d,
                      slug = slug d, coverImage = coverImage d, audioFile = audioFile d,
                      id_f = i, createdAt = now, updatedAt = now\<rparr>
      in case fs_writeFile s (path_join (TRACKS_DIR s) (i @ ''.json'')) (Json newTrack) of
           (Inl e, s') \<Rightarrow> (Inl e, s')
         | (Inr u, s') \<Rightarrow> (Inr newTrack, s'))"

text \<open>\<^verbatim>\<open>{ ...track, ...updates }\<close>: a key of \<open>updates\<close> replaces the key of \<open>track\<close>.\<close>

definition spread :: "track \<Rightarrow> track_update \<Rightarrow> track" where
  "spread t u =
     \<lparr>title = (case upd_title u of None \<Rightarrow> title t | Some v \<Rightarrow> v),
      artist = (case upd_artist u of None \<Rightarrow> artist t | Some v \<Rightarrow> v),
      album = (case upd_album u of None \<Rightarrow> album t | Some v \<Rightarrow> v),
      genres = (case upd_genres u of None \<Rightarrow> genres t | Some v \<Rightarrow> v),
      slug = (case upd_slug u of None \<Rightarrow> slug t | Some v \<Rightarrow> v),
      coverImage = (case upd_coverImage u of None \<Rightarrow> coverImage t | Some v \<Rightarrow> v),
      audioFile = (case upd_audioFile u of None \<Rightarrow> audioFile t | Some v \<Rightarrow> v),
      id_f = (case upd_id u of None \<Rightarrow> id_f t | Some v \<Rightarrow> v),
      createdAt = (case upd_createdAt u of None \<Rightarrow> createdAt t | Some v \<Rightarrow> v),
      updatedAt = (case upd_updatedAt u of None \<Rightarrow> updatedAt t | Some v \<Rightarrow> v)\<rparr>"

definition updateTrack_try :: "fs \<Rightarrow> string \<Rightarrow> string \<Rightarrow> track_update \<Rightarrow> (error + track option) \<times> fs" where
  "updateTrack_try s now i updates =
     (case getTrackById s i of
        Inl e \<Rightarrow> (Inl e, s)
      | Inr None \<Rightarrow> (Inr None, s)
      | Inr (Some t) \<Rightarrow>
          (let updatedTrack = (spread t updates)\<lparr>updatedAt := now\<rparr>
           in case fs_writeFile s (path_join (TRACKS_DIR s) (i @ ''.json'')) (Json updatedTrack) of
                (Inl e, s') \<Rightarrow> (Inl e, s')
              | (Inr u, s') \<Rightarrow> (Inr (Some updatedTrack), s')))"

definition updateTrack :: "fs \<Rightarrow> string \<Rightarrow> string \<Rightarrow> track_update \<Rightarrow> (error + track option) \<times> fs" where
  "updateTrack s now i updates =
     (case updateTrack_try s now i updates of
        (Inl e, s') \<Rightarrow> (Inr None, s')
      | (Inr r, s') \<Rightarrow> (Inr r, s'))"

subsection \<open>deleteTrack, deleteMultipleTracks and deleteAudioFile\<close>

definition deleteTrack_try :: "fs \<Rightarrow> string \<Rightarrow> (error + bool) \<times> fs" where
  "deleteTrack_try s i =
     (case getTrackById s i of
        Inl e \<Rightarrow> (Inl e, s)
      | Inr None \<Rightarrow> (Inr False, s)
      | Inr (Some t) \<Rightarrow>
          (case fs_unlink s (path_join (TRACKS_DIR s) (i @ ''.json'')) of
             (Inl e, s1) \<Rightarrow> (Inl e, s1)
           | (Inr u, s1) \<Rightarrow>
               (let s2 = (case audioFile t of
                            None \<Rightarrow> s1
                          | Some f \<Rightarrow>
                              if f = [] then s1
                              else (case fs_unlink s1 (path_join (UPLOADS_DIR s) f) of
                                      (Inl e, s') \<Rightarrow> s'
                                    | (Inr u', s') \<Rightarrow> s'))
                in (Inr True, s2))))"

definition deleteTrack :: "fs \<Rightarrow> string \<Rightarrow> (error + bool) \<times> fs" where
  "deleteTrack s i =
     (case deleteTrack_try s i of
        (Inl e, s') \<Rightarrow> (Inr False, s')
      | (Inr b, s') \<Rightarrow> (Inr b, s'))"

fun deleteMultipleTracks_loop ::
  "fs \<Rightarrow> string list \<Rightarrow> BatchDeleteResponse \<Rightarrow> (error + BatchDeleteResponse) \<times> fs" where
  "deleteMultipleTracks_loop s [] results = (Inr results, s)"
| "deleteMultipleTracks_loop s (i # ids) results =
     (case deleteTrack s i of
        (Inl e, s') \<Rightarrow> (Inl e, s')
      | (Inr ok, s') \<Rightarrow>
          deleteMultipleTracks_loop s' ids
            (if ok then results\<lparr>success := success results @ [i]\<rparr>
             else results\<lparr>failed := failed results @ [i]\<rparr>))"

definition deleteMultipleTracks :: "fs \<Rightarrow> string list \<Rightarrow> (error + BatchDeleteResponse) \<times> fs" where
  "deleteMultipleTracks s ids = deleteMultipleTracks_loop s ids \<lparr>success = [], failed = []\<rparr>"

text \<open>The object \<^verbatim>\<open>{ audioFile: undefined }\<close>.\<close>

definition clearAudioFile :: track_update where
  "clearAudioFile =
     \<lparr>upd_id = None, upd_title = None, upd_artist = None, upd_album = None, upd_genres = None,
      upd_slug = None, upd_coverImage = None, upd_audioFile = Some None, upd_createdAt = None,
      upd_updatedAt = None\<rparr>"

definition deleteAudioFile_try :: "fs \<Rightarrow> string \<Rightarrow> string \<Rightarrow> (error + bool) \<times> fs" where
  "deleteAudioFile_try s now i =
     (case getTrackById s i of
        Inl e \<Rightarrow> (Inl e, s)
      | Inr None \<Rightarrow> (Inr False, s)
      | Inr (Some t) \<Rightarrow>
          (case audioFile t of
             None \<Rightarrow> (Inr False, s)
           | Some f \<Rightarrow>
               if f = [] then (Inr False, s)
               else (case fs_unlink s (path_join (UPLOADS_DIR s) f) of
                       (Inl e, s1) \<Rightarrow> (Inl e, s1)
                     | (Inr u, s1) \<Rightarrow>
                         (case updateTrack s1 now i clearAudioFile of
                            (Inl e, s2) \<Rightarrow> (Inl e, s2)
                          | (Inr r, s2) \<Rightarrow> (Inr True, s2)))))"

definition deleteAudioFile :: "fs \<Rightarrow> string \<Rightarrow> string \<Rightarrow> (error + bool) \<times> fs" where
  "deleteAudioFile s now i =
     (case deleteAudioFile_try s now i of
        (Inl e, s') \<Rightarrow> (Inr False, s')
      | (Inr b, s') \<Rightarrow> (Inr b, s'))"

subsection \<open>Notions of the specification\<close>

text \<open>The stored record set: what the directory scan of \<open>getTracks\<close> reads.\<close>

definition loadAll :: "fs \<Rightarrow> error + track list" where
  "loadAll s =
     (case fs_readdir s (TRACKS_DIR s) of Inl e \<Rightarrow> Inl e | Inr files \<Rightarrow> readTracks s files)"

text \<open>A case-insensitive substring match.\<close>

definition ci_includes :: "string \<Rightarrow> string \<Rightarrow> bool" where
  "ci_includes text needle = includes_str (toLowerCase text) (toLowerCase needle)"

text \<open>
  The filters in the words of the specification: \<open>search\<close> matches when any of title,
  artist or album contains the term, \<open>genre\<close> is a membership test on the genres, and
  \<open>artist\<close> matches on the artist only. \<open>satisfiesAsStated\<close> applies every filter that
  the query has; \<open>satisfiesFilters\<close> differs in one place: an empty genre does not filter.
\<close>

definition searchMatches :: "string \<Rightarrow> track \<Rightarrow> bool" where
  "searchMatches needle t =
     (ci_includes (title t) needle \<or> ci_includes (artist t) needle
      \<or> (case album t of None \<Rightarrow> False | Some a \<Rightarrow> ci_includes a needle))"


definition satisfiesFilters :: "QueryParams \<Rightarrow> track \<Rightarrow> bool" where
  "satisfiesFilters q t =
     ((case search q of None \<Rightarrow> True | Some needle \<Rightarrow> searchMatches needle t)
      \<and> (case genre q of None \<Rightarrow> True | Some g \<Rightarrow> g = [] \<or> g \<in> set (genres t))
      \<and> (case artist_param q of None \<Rightarrow> True | Some a \<Rightarrow> ci_includes (artist t) a))"

text \<open>The page number and the page size in force: an absent or zero parameter is the default.\<close>

definition pageOf :: "QueryParams \<Rightarrow> real" where
  "pageOf q = (case page q of None \<Rightarrow> 1 | Some p \<Rightarrow> if p = 0 then 1 else p)"

definition limitOf :: "QueryParams \<Rightarrow> real" where
  "limitOf q = (case limit q of None \<Rightarrow> 10 | Some l \<Rightarrow> if l = 0 then 10 else l)"

text \<open>The elements of a sequence at the positions \<open>i\<close> with \<open>a \<le> i < b\<close>.\<close>

definition window :: "'a list \<Rightarrow> real \<Rightarrow> real \<Rightarrow> 'a list" where
  "window xs a b = map (\<lambda>i. xs ! i) (filter (\<lambda>i. a \<le> real i \<and> real i < b) [0..<length xs])"

text \<open>The creation time of a track whose \<open>createdAt\<close> is a valid date.\<close>

definition validDate :: "string \<Rightarrow> bool" where
  "validDate d = (Date_getTime d \<noteq> None)"

definition timeOf :: "track \<Rightarrow> int" where
  "timeOf t = (case Date_getTime (createdAt t) of None \<Rightarrow> 0 | Some v \<Rightarrow> v)"

text \<open>
  The path of the record file of an id and of the audio file of a name, as the code builds
  them, and whether some stored track names a path as its audio file.
\<close>

definition trackPath :: "fs \<Rightarrow> string \<Rightarrow> path" where
  "trackPath s i = path_join (TRACKS_DIR s) (i @ ''.json'')"

definition audioPath :: "fs \<Rightarrow> string \<Rightarrow> path" where
  "audioPath s f = path_join (UPLOADS_DIR s) f"

definition namedAsAudio :: "fs \<Rightarrow> path \<Rightarrow> bool" where
  "namedAsAudio s p =
     list_ex (\<lambda>(q, c). case c of NotJson \<Rightarrow> False
                | Json t \<Rightarrow> (case audioFile t of None \<Rightarrow> False | Some f \<Rightarrow> audioPath s f = p))
       (disk s)"

text \<open>The files that are left when a record that is found has been deleted.\<close>

definition diskAfterDelete :: "fs \<Rightarrow> string \<Rightarrow> track \<Rightarrow> (path \<times> track json_text) list" where
  "diskAfterDelete s i t =
     (case audioFile t of
        None \<Rightarrow> AList.delete (trackPath s i) (disk s)
      | Some f \<Rightarrow>
          if f = [] \<or> denied s UnlinkA (File (audioPath s f))
          then AList.delete (trackPath s i) (disk s)
          else AList.delete (audioPath s f) (AList.delete (trackPath s i) (disk s)))"

subsection \<open>Example stores\<close>

definition ex_draft :: track_draft where
  "ex_draft =
     \<lparr>title = ''Blue'', artist = ''Ann'', album = None, genres = [''Jazz''], slug = ''blue'',
      coverImage = None, audioFile = None\<rparr>"

definition ex_empty_fs :: fs where
  "ex_empty_fs =
     \<lparr>TRACKS_DIR = [''srv'', ''data'', ''tracks''], UPLOADS_DIR = [''srv'', ''data'', ''uploads''],
      disk = [], genresFile = None, denied = (\<lambda>a t. False)\<rparr>"

definition ex_created :: track where
  "ex_created =
     \<lparr>title = ''Blue'', artist = ''Ann'', album = None, genres = [''Jazz''], slug = ''blue'',
      coverImage = None, audioFile = None, id_f = ''17'',
      createdAt = ''2024-01-01T00:00:00.000Z'', updatedAt = ''2024-01-01T00:00:00.000Z''\<rparr>"

definition ex_tA :: track where
  "ex_tA =
     \<lparr>title = ''b'', artist = ''Ann'', album = Some ''First'', genres = [''Rock''], slug = ''b'',
      coverImage = None, audioFile = Some ''1.mp3'', id_f = ''1'',
      createdAt = ''2024-01-01T00:00:00.000Z'', updatedAt = ''2024-01-01T00:00:00.000Z''\<rparr>"

definition ex_tB :: track where
  "ex_tB =
     \<lparr>title = ''a'', artist = ''Bob'', album = None, genres = [''Pop''], slug = ''a'',
      coverImage = None, audioFile = None, id_f = ''2'',
      createdAt = ''2024-01-02T00:00:00.000Z'', updatedAt = ''2024-01-02T00:00:00.000Z''\<rparr>"

definition ex_tC :: track where
  "ex_tC =
     \<lparr>title = ''c'', artist = ''Cy'', album = None, genres = [''Rock'', ''Pop''], slug = ''c'',
      coverImage = None, audioFile = None, id_f = ''3'',
      createdAt = ''2024-01-03T00:00:00.000Z'', updatedAt = ''2024-01-03T00:00:00.000Z''\<rparr>"

definition ex_store :: fs where
  "ex_store =
     \<lparr>TRACKS_DIR = [''srv'', ''data'', ''tracks''], UPLOADS_DIR = [''srv'', ''data'', ''uploads''],
      disk = [([''srv'', ''data'', ''tracks'', ''1.json''], Json ex_tA),
               ([''srv'', ''data'', ''tracks'', ''2.json''], Json ex_tB),
               ([''srv'', ''data'', ''tracks'', ''3.json''], Json ex_tC),
               ([''srv'', ''data'', ''uploads'', ''1.mp3''], NotJson)],
      genresFile = Some (Json [''Rock'', ''Pop'']),
      denied = (\<lambda>a t. False)\<rparr>"

definition ex_readonly :: fs where
  "ex_readonly = ex_store\<lparr>denied := (\<lambda>a t. a \<noteq> ReadA)\<rparr>"

definition ex_broken :: fs where
  "ex_broken =
     \<lparr>TRACKS_DIR = [''srv'', ''data'', ''tracks''], UPLOADS_DIR = [''srv'', ''data'', ''uploads''],
      disk = [([''srv'', ''data'', ''tracks'', ''1.json''], NotJson)], genresFile = Some NotJson,
      denied = (\<lambda>a t. False)\<rparr>"

definition ex_query :: QueryParams where
  "ex_query =
     \<lparr>page = None, limit = None, sort_param = None, order_param = None, search = None,
      genre = None, artist_param = None\<rparr>"

definition noUpdates :: track_update where
  "noUpdates =
     \<lparr>upd_id = None, upd_title = None, upd_artist = None, upd_album = None, upd_genres = None,
      upd_slug = None, upd_coverImage = None, upd_audioFile = None, upd_createdAt = None,
      upd_updatedAt = None\<rparr>"

definition ex_uploads_locked :: fs where
  "ex_uploads_locked =
     ex_store\<lparr>denied :=
       (\<lambda>a t. a = UnlinkA \<and> t = File [''srv'', ''data'', ''uploads'', ''1.mp3''])\<rparr>"

text \<open>A store in which track 1 names the record file of track 2 as its audio file.\<close>

definition ex_tD :: track where
  "ex_tD = ex_tA\<lparr>audioFile := Some ''../tracks/2.json''\<rparr>"

definition ex_crossed :: fs where
  "ex_crossed =
     ex_store\<lparr>disk := [([''srv'', ''data'', ''tracks'', ''1.json''], Json ex_tD),
                         ([''srv'', ''data'', ''tracks'', ''2.json''], Json ex_tB)]\<rparr>"

section \<open>Properties\<close>

subsection \<open>Association lists\<close>

lemma map_of_AList_update_same: "map_of (AList.update k v al) k = Some v"
  by (simp add: AList.update_conv')

lemma map_of_AList_delete_same: "map_of (AList.delete k al) k = None"
  by (simp add: AList.delete_conv')

subsection \<open>Create, then look up\<close>

text \<open>
  C1. When \<open>createTrack\<close> returns a record and the file it wrote can be read, \<open>getTrackById\<close>
  on the id of that record returns the same record.
\<close>

theorem createTrack_then_getTrackById:
  assumes "fst (createTrack s ms now d) = Inr t"
    and "\<not> denied s ReadA (File (trackPath s (id_f t)))"
  shows "getTrackById (snd (createTrack s ms now d)) (id_f t) = Inr (Some t)"
  using assms
  by (auto simp: createTrack_def Let_def fs_writeFile_def getTrackById_def trackPath_def
      getTrackById_try_def fs_readFile_def map_of_AList_update_same split: if_splits)

theorem createTrack_then_getTrackById_witness:
  "fst (createTrack ex_empty_fs 17 ''2024-01-01T00:00:00.000Z'' ex_draft) = Inr ex_created
   \<and> \<not> denied ex_empty_fs ReadA (File (trackPath ex_empty_fs (id_f ex_created)))
   \<and> getTrackById (snd (createTrack ex_empty_fs 17 ''2024-01-01T00:00:00.000Z'' ex_draft)) ''17''
       = Inr (Some ex_created)"
proof -
  have c: "fst (createTrack ex_empty_fs 17 ''2024-01-01T00:00:00.000Z'' ex_draft) = Inr ex_created"
    by code_simp
  have r: "\<not> denied ex_empty_fs ReadA (File (trackPath ex_empty_fs (id_f ex_created)))"
    by (simp add: ex_empty_fs_def)
  have i: "id_f ex_created = ''17''"
    by (simp add: ex_created_def)
  from createTrack_then_getTrackById [OF c r] i c r show ?thesis
    by simp
qed

subsection \<open>The lookups never raise\<close>

text \<open>
  C5. \<open>getTrackById\<close>, \<open>getTrackBySlug\<close>, \<open>getTracks\<close> and \<open>getGenres\<close> return a value
  on every store and input; when the body of their \<^verbatim>\<open>try\<close> block fails, on a file-system
  error or a parse error, they return not-found, the empty result or the empty list.
\<close>

theorem lookups_never_raise:
  "(\<exists>r. getTrackById s i = Inr r) \<and> (\<exists>r. getTrackBySlug s sl = Inr r)
   \<and> (\<exists>r. getTracks s q = Inr r) \<and> (\<exists>r. getGenres s = Inr r)
   \<and> (\<forall>e. getTrackById_try s i = Inl e \<longrightarrow> getTrackById s i = Inr None)
   \<and> (\<forall>e. getTrackBySlug_try s sl = Inl e \<longrightarrow> getTrackBySlug s sl = Inr None)
   \<and> (\<forall>e. getTracks_try s q = Inl e \<longrightarrow> getTracks s q = Inr \<lparr>tracks = [], total = 0\<rparr>)
   \<and> (\<forall>e. getGenres_try s = Inl e \<longrightarrow> getGenres s = Inr [])"
  by (simp add: getTrackById_def getTrackBySlug_def getTracks_def getGenres_def split: sum.split)

theorem lookups_never_raise_witness:
  "getTrackById_try ex_broken ''1'' = Inl SyntaxError \<and> getTrackById ex_broken ''1'' = Inr None
   \<and> getTrackBySlug_try ex_broken ''b'' = Inl SyntaxError \<and> getTrackBySlug ex_broken ''b'' = Inr None
   \<and> getTracks_try ex_broken ex_query = Inl SyntaxError
   \<and> getTracks ex_broken ex_query = Inr \<lparr>tracks = [], total = 0\<rparr>
   \<and> getGenres_try ex_broken = Inl SyntaxError \<and> getGenres ex_broken = Inr []"
proof -
  have a: "getTrackById_try ex_broken ''1'' = Inl SyntaxError" by code_simp
  have b: "getTrackBySlug_try ex_broken ''b'' = Inl SyntaxError" by code_simp
  have c: "getTracks_try ex_broken ex_query = Inl SyntaxError" by code_simp
  have d: "getGenres_try ex_broken = Inl SyntaxError" by code_simp
  from lookups_never_raise [of ex_broken "''1''" "''b''" ex_query] a b c d show ?thesis
    by simp
qed

subsection \<open>Errors on the write paths\<close>

text \<open>
  C6. \<open>createTrack\<close> passes a failing write on to its caller as \<open>IOFailure\<close>.
  \<open>updateTrack\<close> and \<open>deleteTrack\<close> never return an error: when the record is there and
  its file cannot be written or unlinked, they return not-found and false, which is what
  they return for a record that is absent.
\<close>

theorem write_paths_error_asymmetry:
  "(denied s WriteA (File (trackPath s (toString ms)))
      \<longrightarrow> createTrack s ms now d = (Inl IOFailure, s))
   \<and> (\<forall>e. fst (updateTrack s now i u) \<noteq> Inl e)
   \<and> (\<forall>e. fst (deleteTrack s i) \<noteq> Inl e)
   \<and> (getTrackById s i = Inr (Some t) \<and> denied s WriteA (File (trackPath s i))
      \<longrightarrow> updateTrack_try s now i u = (Inl IOFailure, s) \<and> updateTrack s now i u = (Inr None, s))
   \<and> (getTrackById s i = Inr None \<longrightarrow> updateTrack s now i u = (Inr None, s))
   \<and> (getTrackById s i = Inr (Some t) \<and> denied s UnlinkA (File (trackPath s i))
      \<longrightarrow> deleteTrack_try s i = (Inl IOFailure, s) \<and> deleteTrack s i = (Inr False, s))
   \<and> (getTrackById s i = Inr None \<longrightarrow> deleteTrack s i = (Inr False, s))"
  by (auto simp: createTrack_def Let_def fs_writeFile_def updateTrack_def updateTrack_try_def
      deleteTrack_def deleteTrack_try_def fs_unlink_def trackPath_def
      split: sum.splits option.splits prod.splits if_splits)

theorem write_paths_error_asymmetry_witness:
  "denied ex_readonly WriteA (File (trackPath ex_readonly (toString 17)))
   \<and> fst (createTrack ex_readonly 17 ''2024-01-05T00:00:00.000Z'' ex_draft) = Inl IOFailure
   \<and> getTrackById ex_readonly ''1'' = Inr (Some ex_tA)
   \<and> denied ex_readonly WriteA (File (trackPath ex_readonly ''1''))
   \<and> fst (updateTrack ex_readonly ''2024-01-05T00:00:00.000Z'' ''1'' noUpdates) = Inr None
   \<and> getTrackById ex_readonly ''9'' = Inr None
   \<and> fst (updateTrack ex_readonly ''2024-01-05T00:00:00.000Z'' ''9'' noUpdates) = Inr None
   \<and> denied ex_readonly UnlinkA (File (trackPath ex_readonly ''1''))
   \<and> fst (deleteTrack ex_readonly ''1'') = Inr False
   \<and> fst (deleteTrack ex_readonly ''9'') = Inr False"
proof -
  have w: "denied ex_readonly WriteA (File (trackPath ex_readonly (toString 17)))"
    and w1: "denied ex_readonly WriteA (File (trackPath ex_readonly ''1''))"
    and u1: "denied ex_readonly UnlinkA (File (trackPath ex_readonly ''1''))"
    by (simp_all add: ex_readonly_def)
  have g1: "getTrackById ex_readonly ''1'' = Inr (Some ex_tA)" by code_simp
  have g9: "getTrackById ex_readonly ''9'' = Inr None" by code_simp
  note th = write_paths_error_asymmetry [where s = ex_readonly and ms = 17 and d = ex_draft
      and now = "''2024-01-05T00:00:00.000Z''" and u = noUpdates and t = ex_tA]
  from th [where i = "''1''"] w w1 u1 g1
  have p1: "fst (createTrack ex_readonly 17 ''2024-01-05T00:00:00.000Z'' ex_draft) = Inl IOFailure"
    and p2: "fst (updateTrack ex_readonly ''2024-01-05T00:00:00.000Z'' ''1'' noUpdates) = Inr None"
    and p3: "fst (deleteTrack ex_readonly ''1'') = Inr False"
    by simp_all
  from th [where i = "''9''"] g9
  have p4: "fst (updateTrack ex_readonly ''2024-01-05T00:00:00.000Z'' ''9'' noUpdates) = Inr None"
    and p5: "fst (deleteTrack ex_readonly ''9'') = Inr False"
    by simp_all
  from w w1 u1 g1 g9 p1 p2 p3 p4 p5 show ?thesis by simp
qed

subsection \<open>What \<open>getTracks\<close> computes\<close>

lemma toLowerCase_Nil_iff: "toLowerCase a = [] \<longleftrightarrow> a = []"
  by (simp add: toLowerCase_def)

lemma toLowerCase_Nil: "toLowerCase [] = []"
  by (simp add: toLowerCase_def)

lemma includes_str_Nil: "includes_str x []"
  by (simp add: includes_str_def)

lemma includes_str_in_Nil: "includes_str [] x \<longleftrightarrow> x = []"
  by (simp add: includes_str_def)

lemma searchMatches_Nil: "searchMatches [] t"
  by (simp add: searchMatches_def ci_includes_def toLowerCase_Nil includes_str_Nil)

lemma search_filter_eq:
  "needle \<noteq> [] \<Longrightarrow>
   (includes_str (toLowerCase (title t)) (toLowerCase needle)
    \<or> includes_str (toLowerCase (artist t)) (toLowerCase needle)
    \<or> (case album t of None \<Rightarrow> False | Some a \<Rightarrow> a \<noteq> [] \<and> includes_str (toLowerCase a) (toLowerCase needle)))
   = searchMatches needle t"
  by (auto simp: searchMatches_def ci_includes_def toLowerCase_Nil toLowerCase_Nil_iff
      includes_str_in_Nil split: option.splits)

lemma getTracks_try_loaded:
  assumes "loadAll s = Inr stored"
  shows "getTracks_try s q =
    Inr \<lparr>tracks = js_slice (sortTracks q (filter (satisfiesFilters q) stored))
                     ((pageOf q - 1) * limitOf q) ((pageOf q - 1) * limitOf q + limitOf q),
         total = length (sortTracks q (filter (satisfiesFilters q) stored))\<rparr>"
proof -
  obtain files where f: "fs_readdir s (TRACKS_DIR s) = Inr files"
    and r: "readTracks s files = Inr stored"
    using assms by (auto simp: loadAll_def split: sum.splits)
  define tracks1 where "tracks1 = (case search q of None \<Rightarrow> stored
      | Some needle \<Rightarrow> if needle = [] then stored
          else (let searchLower = toLowerCase needle
                in filter (\<lambda>t. includes_str (toLowerCase (title t)) searchLower
                     \<or> includes_str (toLowerCase (artist t)) searchLower
                     \<or> (case album t of None \<Rightarrow> False
                         | Some a \<Rightarrow> a \<noteq> [] \<and> includes_str (toLowerCase a) searchLower)) stored))"
  define tracks2 where "tracks2 = (case genre q of None \<Rightarrow> tracks1
      | Some g \<Rightarrow> if g = [] then tracks1 else filter (\<lambda>t. g \<in> set (genres t)) tracks1)"
  define tracks3 where "tracks3 = (case artist_param q of None \<Rightarrow> tracks2
      | Some a \<Rightarrow> if a = [] then tracks2
          else (let artistLower = toLowerCase a
                in filter (\<lambda>t. includes_str (toLowerCase (artist t)) artistLower) tracks2))"
  have t1: "tracks1 = filter (\<lambda>t. case search q of None \<Rightarrow> True | Some needle \<Rightarrow> searchMatches needle t) stored"
    by (auto simp: tracks1_def Let_def searchMatches_Nil search_filter_eq split: option.splits
        intro!: filter_cong)
  have t2: "tracks2 = filter (\<lambda>t. case genre q of None \<Rightarrow> True | Some g \<Rightarrow> g = [] \<or> g \<in> set (genres t)) tracks1"
    by (auto simp: tracks2_def split: option.splits)
  have t3: "tracks3 = filter (\<lambda>t. case artist_param q of None \<Rightarrow> True | Some a \<Rightarrow> ci_includes (artist t) a) tracks2"
    by (auto simp: tracks3_def Let_def ci_includes_def toLowerCase_Nil includes_str_Nil
        split: option.splits)
  have t: "tracks3 = filter (satisfiesFilters q) stored"
    unfolding t3 t2 t1 filter_filter satisfiesFilters_def by (rule filter_cong) auto
  have "getTracks_try s q =
    Inr \<lparr>tracks = js_slice (sortTracks q tracks3)
                     ((pageOf q - 1) * limitOf q) ((pageOf q - 1) * limitOf q + limitOf q),
         total = length (sortTracks q tracks3)\<rparr>"
    unfolding getTracks_try_def tracks3_def tracks2_def tracks1_def pageOf_def limitOf_def
    by (simp add: f r Let_def)
  then show ?thesis by (simp add: t)
qed

lemma getTracks_loaded:
  assumes "loadAll s = Inr stored"
  shows "getTracks s q =
    Inr \<lparr>tracks = js_slice (sortTracks q (filter (satisfiesFilters q) stored))
                     ((pageOf q - 1) * limitOf q) ((pageOf q - 1) * limitOf q + limitOf q),
         total = length (sortTracks q (filter (satisfiesFilters q) stored))\<rparr>"
  by (simp add: getTracks_def getTracks_try_loaded [OF assms])




lemma satisfiesFilters_paging [simp]:
  "satisfiesFilters (q\<lparr>page := p\<rparr>) = satisfiesFilters q"
  "satisfiesFilters (q\<lparr>limit := l\<rparr>) = satisfiesFilters q"
  by (simp_all add: satisfiesFilters_def fun_eq_iff)

lemma sortTracks_paging [simp]:
  "sortTracks (q\<lparr>page := p\<rparr>) = sortTracks q"
  "sortTracks (q\<lparr>limit := l\<rparr>) = sortTracks q"
  by (simp_all add: sortTracks_def fun_eq_iff Let_def split: option.split)

lemma pageOf_simps [simp]:
  "pageOf (q\<lparr>page := None\<rparr>) = 1"
  "pageOf (q\<lparr>page := Some p\<rparr>) = (if p = 0 then 1 else p)"
  "pageOf (q\<lparr>limit := l\<rparr>) = pageOf q"
  by (simp_all add: pageOf_def)

lemma limitOf_simps [simp]:
  "limitOf (q\<lparr>limit := None\<rparr>) = 10"
  "limitOf (q\<lparr>limit := Some l\<rparr>) = (if l = 0 then 10 else l)"
  "limitOf (q\<lparr>page := p\<rparr>) = limitOf q"
  by (simp_all add: limitOf_def)

subsection \<open>Zero is absent\<close>


subsection \<open>The id under \<open>updateTrack\<close>\<close>

lemma id_f_spread: "id_f (spread t u) = (case upd_id u of None \<Rightarrow> id_f t | Some j \<Rightarrow> j)"
  by (simp add: spread_def)

lemma updateTrack_id:
  assumes "getTrackById s i = Inr (Some t)" and "fst (updateTrack s now i u) = Inr (Some t')"
  shows "id_f t' = (case upd_id u of None \<Rightarrow> id_f t | Some j \<Rightarrow> j)"
  using assms
  by (auto simp: updateTrack_def updateTrack_try_def Let_def fs_writeFile_def id_f_spread
      split: if_splits)

text \<open>
  C9. The claim that an update keeps the id fails: on the example store, whose file
  1.json holds the track with id 1, the update \<^verbatim>\<open>{ id: '2' }\<close> of track 1 returns a
  record with id 2 and writes it to 1.json.
\<close>

theorem updateTrack_overwrites_id:
  "getTrackById ex_store ''1'' = Inr (Some ex_tA) \<and> id_f ex_tA = ''1''
   \<and> fst (updateTrack ex_store ''2024-02-01T00:00:00.000Z'' ''1'' (noUpdates\<lparr>upd_id := Some ''2''\<rparr>))
       = Inr (Some (ex_tA\<lparr>id_f := ''2'', updatedAt := ''2024-02-01T00:00:00.000Z''\<rparr>))
   \<and> getTrackById
        (snd (updateTrack ex_store ''2024-02-01T00:00:00.000Z'' ''1'' (noUpdates\<lparr>upd_id := Some ''2''\<rparr>)))
        ''1''
       = Inr (Some (ex_tA\<lparr>id_f := ''2'', updatedAt := ''2024-02-01T00:00:00.000Z''\<rparr>))"
proof -
  have a: "getTrackById ex_store ''1'' = Inr (Some ex_tA)" by code_simp
  have b: "id_f ex_tA = ''1''" by (simp add: ex_tA_def)
  have c: "fst (updateTrack ex_store ''2024-02-01T00:00:00.000Z'' ''1'' (noUpdates\<lparr>upd_id := Some ''2''\<rparr>))
       = Inr (Some (ex_tA\<lparr>id_f := ''2'', updatedAt := ''2024-02-01T00:00:00.000Z''\<rparr>))"
    by code_simp
  have d: "getTrackById
        (snd (updateTrack ex_store ''2024-02-01T00:00:00.000Z'' ''1'' (noUpdates\<lparr>upd_id := Some ''2''\<rparr>)))
        ''1''
       = Inr (Some (ex_tA\<lparr>id_f := ''2'', updatedAt := ''2024-02-01T00:00:00.000Z''\<rparr>))"
    by code_simp
  from a b c d show ?thesis by simp
qed

subsection \<open>Deleting a track\<close>

lemma getTrackById_Some_iff:
  "getTrackById s i = Inr (Some t) \<longleftrightarrow>
     \<not> denied s ReadA (File (trackPath s i)) \<and> map_of (disk s) (trackPath s i) = Some (Json t)"
  by (auto simp: getTrackById_def getTrackById_try_def fs_readFile_def trackPath_def
      split: sum.splits option.splits json_text.splits if_splits elim: JSON_parse.elims)

lemma getTrackById_None_iff:
  "getTrackById s i = Inr None \<longleftrightarrow>
     denied s ReadA (File (trackPath s i)) \<or> (\<forall>t. map_of (disk s) (trackPath s i) \<noteq> Some (Json t))"
  by (auto simp: getTrackById_def getTrackById_try_def fs_readFile_def trackPath_def
      split: sum.splits option.splits json_text.splits if_splits elim: JSON_parse.elims)

lemma getTrackById_cases: "getTrackById s i = Inr None \<or> (\<exists>t. getTrackById s i = Inr (Some t))"
  by (auto simp: getTrackById_def split: sum.splits)

lemma deleteTrack_absent: "getTrackById s i = Inr None \<Longrightarrow> deleteTrack s i = (Inr False, s)"
  by (simp add: deleteTrack_def deleteTrack_try_def)

lemma deleteTrack_refused:
  "getTrackById s i = Inr (Some t) \<Longrightarrow> denied s UnlinkA (File (trackPath s i))
   \<Longrightarrow> deleteTrack s i = (Inr False, s)"
  by (simp add: deleteTrack_def deleteTrack_try_def fs_unlink_def trackPath_def)

lemma deleteTrack_present:
  assumes "getTrackById s i = Inr (Some t)" and "\<not> denied s UnlinkA (File (trackPath s i))"
  shows "deleteTrack s i = (Inr True, s\<lparr>disk := diskAfterDelete s i t\<rparr>)"
proof -
  have m: "map_of (disk s) (trackPath s i) = Some (Json t)"
    using assms(1) by (simp add: getTrackById_Some_iff)
  have d: "AList.delete p al = al" if "map_of al p = None" for p and al :: "(path \<times> track json_text) list"
    using that by (simp add: AList.delete_id map_of_eq_None_iff)
  show ?thesis
    using assms m
    by (auto simp: deleteTrack_def deleteTrack_try_def fs_unlink_def Let_def diskAfterDelete_def
        trackPath_def audioPath_def d split: option.split)
qed

lemma deleteTrack_cases:
  "deleteTrack s i = (Inr False, s)
   \<or> (\<exists>t. getTrackById s i = Inr (Some t) \<and> \<not> denied s UnlinkA (File (trackPath s i))
          \<and> deleteTrack s i = (Inr True, s\<lparr>disk := diskAfterDelete s i t\<rparr>))"
  using getTrackById_cases [of s i] deleteTrack_absent [of s i] deleteTrack_refused [of s i]
    deleteTrack_present [of s i]
  by blast

lemma map_of_diskAfterDelete:
  "map_of (diskAfterDelete s i t) p = None \<or> map_of (diskAfterDelete s i t) p = map_of (disk s) p"
  by (simp add: diskAfterDelete_def AList.delete_conv' split: option.split)

lemma map_of_diskAfterDelete_own: "map_of (diskAfterDelete s i t) (trackPath s i) = None"
  by (simp add: diskAfterDelete_def AList.delete_conv' split: option.split)

lemma map_of_diskAfterDelete_other:
  assumes "p \<noteq> trackPath s i" and "\<forall>f. audioFile t = Some f \<longrightarrow> audioPath s f \<noteq> p"
  shows "map_of (diskAfterDelete s i t) p = map_of (disk s) p"
proof (cases "audioFile t")
  case None
  with assms(1) show ?thesis by (simp add: diskAfterDelete_def AList.delete_conv')
next
  case (Some f)
  with assms(2) have "audioPath s f \<noteq> p" by simp
  with assms(1) Some show ?thesis by (simp add: diskAfterDelete_def AList.delete_conv')
qed

lemma set_diskAfterDelete: "set (diskAfterDelete s i t) \<subseteq> set (disk s)"
  by (auto simp: diskAfterDelete_def AList.delete_eq split: option.split)

lemma namedAsAudio_iff:
  "namedAsAudio s p \<longleftrightarrow> (\<exists>q t f. (q, Json t) \<in> set (disk s) \<and> audioFile t = Some f \<and> audioPath s f = p)"
proof
  assume "namedAsAudio s p"
  then obtain q c where m: "(q, c) \<in> set (disk s)"
    and c: "case c of NotJson \<Rightarrow> False
            | Json t \<Rightarrow> (case audioFile t of None \<Rightarrow> False | Some f \<Rightarrow> audioPath s f = p)"
    by (auto simp: namedAsAudio_def list_ex_iff)
  from c obtain t f where "c = Json t" "audioFile t = Some f" "audioPath s f = p"
    by (cases c; cases "audioFile (case c of Json t \<Rightarrow> t)") (auto split: option.splits)
  with m show "\<exists>q t f. (q, Json t) \<in> set (disk s) \<and> audioFile t = Some f \<and> audioPath s f = p"
    by blast
next
  assume "\<exists>q t f. (q, Json t) \<in> set (disk s) \<and> audioFile t = Some f \<and> audioPath s f = p"
  then obtain q t f where m: "(q, Json t) \<in> set (disk s)" and "audioFile t = Some f"
    "audioPath s f = p" by blast
  then have "case (q, Json t) of (q, c) \<Rightarrow> (case c of NotJson \<Rightarrow> False
            | Json t \<Rightarrow> (case audioFile t of None \<Rightarrow> False | Some f \<Rightarrow> audioPath s f = p))"
    by simp
  with m show "namedAsAudio s p"
    unfolding namedAsAudio_def list_ex_iff by blast
qed

lemma deleteTrack_returns: "\<exists>b. fst (deleteTrack s i) = Inr b"
  by (auto simp: deleteTrack_def split: prod.splits sum.splits)

lemma deleteTrack_config:
  "TRACKS_DIR (snd (deleteTrack s j)) = TRACKS_DIR s"
  "UPLOADS_DIR (snd (deleteTrack s j)) = UPLOADS_DIR s"
  "denied (snd (deleteTrack s j)) = denied s"
proof -
  have "\<exists>d. snd (deleteTrack s j) = s\<lparr>disk := d\<rparr>"
    using deleteTrack_cases [of s j]
  proof
    assume "deleteTrack s j = (Inr False, s)"
    then have "snd (deleteTrack s j) = s\<lparr>disk := disk s\<rparr>" by simp
    then show ?thesis ..
  next
    assume "\<exists>t. getTrackById s j = Inr (Some t) \<and> \<not> denied s UnlinkA (File (trackPath s j))
          \<and> deleteTrack s j = (Inr True, s\<lparr>disk := diskAfterDelete s j t\<rparr>)"
    then obtain t where "deleteTrack s j = (Inr True, s\<lparr>disk := diskAfterDelete s j t\<rparr>)"
      by blast
    then have "snd (deleteTrack s j) = s\<lparr>disk := diskAfterDelete s j t\<rparr>" by simp
    then show ?thesis ..
  qed
  then obtain d where d: "snd (deleteTrack s j) = s\<lparr>disk := d\<rparr>" ..
  show "TRACKS_DIR (snd (deleteTrack s j)) = TRACKS_DIR s"
    "UPLOADS_DIR (snd (deleteTrack s j)) = UPLOADS_DIR s"
    "denied (snd (deleteTrack s j)) = denied s"
    unfolding d by simp_all
qed

lemma deleteTrack_paths:
  "trackPath (snd (deleteTrack s j)) i = trackPath s i"
  "audioPath (snd (deleteTrack s j)) f = audioPath s f"
  by (simp_all add: trackPath_def audioPath_def deleteTrack_config)

lemma deleteTrack_disk_subset: "set (disk (snd (deleteTrack s j))) \<subseteq> set (disk s)"
  using deleteTrack_cases [of s j]
proof
  assume "deleteTrack s j = (Inr False, s)"
  then show ?thesis by simp
next
  assume "\<exists>t. getTrackById s j = Inr (Some t) \<and> \<not> denied s UnlinkA (File (trackPath s j))
          \<and> deleteTrack s j = (Inr True, s\<lparr>disk := diskAfterDelete s j t\<rparr>)"
  then obtain t where "deleteTrack s j = (Inr True, s\<lparr>disk := diskAfterDelete s j t\<rparr>)"
    by blast
  then show ?thesis using set_diskAfterDelete [of s j t] by simp
qed

lemma deleteTrack_map_of:
  "map_of (disk (snd (deleteTrack s j))) p = None
   \<or> map_of (disk (snd (deleteTrack s j))) p = map_of (disk s) p"
  using deleteTrack_cases [of s j]
proof
  assume "deleteTrack s j = (Inr False, s)"
  then show ?thesis by simp
next
  assume "\<exists>t. getTrackById s j = Inr (Some t) \<and> \<not> denied s UnlinkA (File (trackPath s j))
          \<and> deleteTrack s j = (Inr True, s\<lparr>disk := diskAfterDelete s j t\<rparr>)"
  then obtain t where "deleteTrack s j = (Inr True, s\<lparr>disk := diskAfterDelete s j t\<rparr>)"
    by blast
  then show ?thesis using map_of_diskAfterDelete [of s j t p] by simp
qed

lemma getTrackById_eq:
  assumes "map_of (disk s') (trackPath s i) = map_of (disk s) (trackPath s i)"
    and "denied s' = denied s" and "TRACKS_DIR s' = TRACKS_DIR s"
  shows "getTrackById s' i = getTrackById s i"
  using assms
  by (simp add: getTrackById_def getTrackById_try_def fs_readFile_def trackPath_def)

text \<open>A record that is not found stays not found when any track is deleted.\<close>

lemma deleteTrack_keeps_absent:
  assumes "getTrackById s i = Inr None"
  shows "getTrackById (snd (deleteTrack s j)) i = Inr None"
proof -
  have "denied s ReadA (File (trackPath s i)) \<or> (\<forall>t. map_of (disk s) (trackPath s i) \<noteq> Some (Json t))"
    using assms by (simp add: getTrackById_None_iff)
  with deleteTrack_map_of [of s j "trackPath s i"]
  have "denied s ReadA (File (trackPath s i))
        \<or> (\<forall>t. map_of (disk (snd (deleteTrack s j))) (trackPath s i) \<noteq> Some (Json t))"
    by auto
  then show ?thesis
    by (simp add: getTrackById_None_iff deleteTrack_config deleteTrack_paths)
qed

text \<open>
  Deleting a track leaves a record as it is when the two ids name different files and no
  stored track names the record file as its audio file.
\<close>

lemma deleteTrack_keeps_other:
  assumes "trackPath s j \<noteq> trackPath s i" and "\<not> namedAsAudio s (trackPath s i)"
  shows "getTrackById (snd (deleteTrack s j)) i = getTrackById s i"
proof -
  have "map_of (disk (snd (deleteTrack s j))) (trackPath s i) = map_of (disk s) (trackPath s i)"
    using deleteTrack_cases [of s j]
  proof
    assume "deleteTrack s j = (Inr False, s)"
    then show ?thesis by simp
  next
    assume "\<exists>t. getTrackById s j = Inr (Some t) \<and> \<not> denied s UnlinkA (File (trackPath s j))
          \<and> deleteTrack s j = (Inr True, s\<lparr>disk := diskAfterDelete s j t\<rparr>)"
    then obtain t where t: "getTrackById s j = Inr (Some t)"
      and d: "deleteTrack s j = (Inr True, s\<lparr>disk := diskAfterDelete s j t\<rparr>)" by blast
    from t have "(trackPath s j, Json t) \<in> set (disk s)"
      by (auto simp: getTrackById_Some_iff dest: map_of_SomeD)
    with assms(2) have "\<forall>f. audioFile t = Some f \<longrightarrow> audioPath s f \<noteq> trackPath s i"
      by (auto simp: namedAsAudio_iff)
    with assms(1) show ?thesis
      by (simp add: d map_of_diskAfterDelete_other)
  qed
  then show ?thesis
    by (rule getTrackById_eq) (simp_all add: deleteTrack_config)
qed

lemma deleteTrack_keeps_unnamed:
  assumes "\<not> namedAsAudio s p"
  shows "\<not> namedAsAudio (snd (deleteTrack s j)) p"
  using assms deleteTrack_disk_subset [of s j]
  by (auto simp: namedAsAudio_iff deleteTrack_paths)

lemma deleteTrack_then_absent:
  assumes "getTrackById s i = Inr (Some t)" and "\<not> denied s UnlinkA (File (trackPath s i))"
  shows "getTrackById (snd (deleteTrack s i)) i = Inr None"
proof -
  have "trackPath (s\<lparr>disk := diskAfterDelete s i t\<rparr>) i = trackPath s i"
    by (simp add: trackPath_def)
  then show ?thesis
    by (simp add: getTrackById_None_iff deleteTrack_present [OF assms] map_of_diskAfterDelete_own)
qed

subsection \<open>Deleting many tracks\<close>

lemma loop_step:
  "deleteMultipleTracks_loop s (i # ids) res =
     deleteMultipleTracks_loop (snd (deleteTrack s i)) ids
       (if fst (deleteTrack s i) = Inr True then res\<lparr>success := success res @ [i]\<rparr>
        else res\<lparr>failed := failed res @ [i]\<rparr>)"
  using deleteTrack_returns [of s i] by (auto split: prod.splits sum.splits)

lemma loop_counts:
  "\<exists>r. fst (deleteMultipleTracks_loop s ids res) = Inr r
     \<and> length (success r) + length (failed r) = length (success res) + length (failed res) + length ids
     \<and> (\<forall>j. count_list (success r) j + count_list (failed r) j
            = count_list (success res) j + count_list (failed res) j + count_list ids j)"
proof (induction ids arbitrary: s res)
  case Nil
  then show ?case by simp
next
  case (Cons i ids)
  show ?case
    unfolding loop_step
    using Cons.IH [of "snd (deleteTrack s i)"
        "if fst (deleteTrack s i) = Inr True then res\<lparr>success := success res @ [i]\<rparr>
         else res\<lparr>failed := failed res @ [i]\<rparr>"]
    by (auto split: if_splits)
qed

lemma loop_absent:
  assumes "getTrackById s i = Inr None"
    and "fst (deleteMultipleTracks_loop s ids res) = Inr r"
  shows "count_list (success r) i = count_list (success res) i"
  using assms
proof (induction ids arbitrary: s res)
  case Nil
  then show ?case by simp
next
  case (Cons j ids)
  let ?s = "snd (deleteTrack s j)"
  let ?res = "if fst (deleteTrack s j) = Inr True then res\<lparr>success := success res @ [j]\<rparr>
              else res\<lparr>failed := failed res @ [j]\<rparr>"
  have a: "getTrackById ?s i = Inr None"
    by (rule deleteTrack_keeps_absent [OF Cons.prems(1)])
  have b: "fst (deleteMultipleTracks_loop ?s ids ?res) = Inr r"
    using Cons.prems(2) unfolding loop_step .
  have c: "count_list (success ?res) i = count_list (success res) i"
    using Cons.prems(1) by (auto simp: deleteTrack_absent)
  from Cons.IH [OF a b] c show ?case by simp
qed

lemma loop_present:
  assumes "getTrackById s i = Inr (Some t)" and "\<not> denied s UnlinkA (File (trackPath s i))"
    and "\<forall>j \<in> set ids. j \<noteq> i \<longrightarrow> trackPath s j \<noteq> trackPath s i"
    and "\<not> namedAsAudio s (trackPath s i)"
    and "fst (deleteMultipleTracks_loop s ids res) = Inr r"
  shows "count_list (success r) i = count_list (success res) i + (if i \<in> set ids then 1 else 0)"
  using assms
proof (induction ids arbitrary: s res)
  case Nil
  then show ?case by simp
next
  case (Cons j ids)
  let ?s = "snd (deleteTrack s j)"
  let ?res = "if fst (deleteTrack s j) = Inr True then res\<lparr>success := success res @ [j]\<rparr>
              else res\<lparr>failed := failed res @ [j]\<rparr>"
  have b: "fst (deleteMultipleTracks_loop ?s ids ?res) = Inr r"
    using Cons.prems(5) unfolding loop_step .
  show ?case
  proof (cases "j = i")
    case True
    have a: "getTrackById ?s i = Inr None"
      unfolding True by (rule deleteTrack_then_absent [OF Cons.prems(1,2)])
    have c: "count_list (success ?res) i = count_list (success res) i + 1"
      using deleteTrack_present [OF Cons.prems(1,2)] by (simp add: True)
    from loop_absent [OF a b] c True show ?thesis by simp
  next
    case False
    then have p: "trackPath s j \<noteq> trackPath s i"
      using Cons.prems(3) by simp
    have a: "getTrackById ?s i = Inr (Some t)"
      using Cons.prems(1) by (simp add: deleteTrack_keeps_other [OF p Cons.prems(4)])
    have d: "\<not> denied ?s UnlinkA (File (trackPath ?s i))"
      using Cons.prems(2) by (simp add: deleteTrack_config deleteTrack_paths)
    have e: "\<forall>k \<in> set ids. k \<noteq> i \<longrightarrow> trackPath ?s k \<noteq> trackPath ?s i"
      using Cons.prems(3) by (simp add: deleteTrack_paths)
    have f: "\<not> namedAsAudio ?s (trackPath ?s i)"
      using deleteTrack_keeps_unnamed [OF Cons.prems(4)] by (simp add: deleteTrack_paths)
    have c: "count_list (success ?res) i = count_list (success res) i"
      using False by simp
    from Cons.IH [OF a d e f b] c False show ?thesis by simp
  qed
qed

text \<open>
  C7, as amended. \<open>deleteMultipleTracks\<close> returns a result on every store and list of ids;
  the succeeded and the failed ids together are the input ids, each as often as it occurs
  in the input, so the two lengths add up to the length of the input. An id that occurs
  twice in the input, whose record is found and whose record file may be unlinked, occurs
  once among the succeeded and once among the failed ids, provided that no other id of the
  input resolves to the same record file and that no stored track names that file as its
  audio file.
\<close>

theorem deleteMultipleTracks_partition:
  "\<exists>r. fst (deleteMultipleTracks s ids) = Inr r
     \<and> length (success r) + length (failed r) = length ids
     \<and> (\<forall>j. count_list (success r) j + count_list (failed r) j = count_list ids j)
     \<and> (getTrackById s i = Inr (Some t) \<and> \<not> denied s UnlinkA (File (trackPath s i))
          \<and> count_list ids i = 2
          \<and> (\<forall>j \<in> set ids. j \<noteq> i \<longrightarrow> trackPath s j \<noteq> trackPath s i)
          \<and> \<not> namedAsAudio s (trackPath s i)
        \<longrightarrow> count_list (success r) i = 1 \<and> count_list (failed r) i = 1)"
proof -
  obtain r where r: "fst (deleteMultipleTracks s ids) = Inr r"
    and l: "length (success r) + length (failed r) = length ids"
    and c: "\<And>j. count_list (success r) j + count_list (failed r) j = count_list ids j"
    using loop_counts [of s ids "\<lparr>success = [], failed = []\<rparr>"]
    by (auto simp: deleteMultipleTracks_def)
  have "count_list (success r) i = 1 \<and> count_list (failed r) i = 1"
    if p: "getTrackById s i = Inr (Some t)" "\<not> denied s UnlinkA (File (trackPath s i))"
      "\<forall>j \<in> set ids. j \<noteq> i \<longrightarrow> trackPath s j \<noteq> trackPath s i"
      "\<not> namedAsAudio s (trackPath s i)"
      and two: "count_list ids i = 2"
  proof -
    have "i \<in> set ids"
      using two count_list_0_iff [of ids i] by auto
    then have "count_list (success r) i = 1"
      using loop_present [OF p, of "\<lparr>success = [], failed = []\<rparr>" r] r
      by (simp add: deleteMultipleTracks_def)
    then show ?thesis using c [of i] two by simp
  qed
  with r l c show ?thesis by blast
qed

theorem deleteMultipleTracks_partition_witness:
  "getTrackById ex_store ''1'' = Inr (Some ex_tA)
   \<and> \<not> denied ex_store UnlinkA (File (trackPath ex_store ''1''))
   \<and> count_list [''1'', ''9'', ''1''] ''1'' = 2
   \<and> trackPath ex_store ''9'' \<noteq> trackPath ex_store ''1''
   \<and> \<not> namedAsAudio ex_store (trackPath ex_store ''1'')
   \<and> fst (deleteMultipleTracks ex_store [''1'', ''9'', ''1''])
       = Inr \<lparr>success = [''1''], failed = [''9'', ''1'']\<rparr>
   \<and> count_list (success \<lparr>success = [''1''], failed = [''9'', ''1'']\<rparr>) ''1'' = 1
   \<and> count_list (failed \<lparr>success = [''1''], failed = [''9'', ''1'']\<rparr>) ''1'' = 1"
proof -
  have g: "getTrackById ex_store ''1'' = Inr (Some ex_tA)" by code_simp
  have u: "\<not> denied ex_store UnlinkA (File (trackPath ex_store ''1''))"
    by (simp add: ex_store_def)
  have n: "count_list [''1'', ''9'', ''1''] ''1'' = 2" by simp
  have a: "trackPath ex_store ''9'' \<noteq> trackPath ex_store ''1''" by code_simp
  have b: "\<not> namedAsAudio ex_store (trackPath ex_store ''1'')" by code_simp
  have e: "fst (deleteMultipleTracks ex_store [''1'', ''9'', ''1''])
       = Inr \<lparr>success = [''1''], failed = [''9'', ''1'']\<rparr>"
    by code_simp
  have a': "\<forall>j \<in> set [''1'', ''9'', ''1'']. j \<noteq> ''1'' \<longrightarrow> trackPath ex_store j \<noteq> trackPath ex_store ''1''"
    using a by simp
  from deleteMultipleTracks_partition [of ex_store "[''1'', ''9'', ''1'']" "''1''" ex_tA] g u n a' b e
  have "count_list (success \<lparr>success = [''1''], failed = [''9'', ''1'']\<rparr>) ''1'' = 1
        \<and> count_list (failed \<lparr>success = [''1''], failed = [''9'', ''1'']\<rparr>) ''1'' = 1"
    by auto
  with g u n a b e show ?thesis by simp
qed

text \<open>
  The claim as stated, for every id that occurs twice and names an existing record, fails in
  three ways. The ids \<^verbatim>\<open>./1\<close> and \<^verbatim>\<open>1\<close> resolve to the same record file: after
  \<^verbatim>\<open>./1\<close> has succeeded, both occurrences of \<^verbatim>\<open>1\<close> fail. A track whose
  \<open>audioFile\<close> is \<^verbatim>\<open>../tracks/2.json\<close> takes the record file of track 2 with it when it
  is deleted, so both occurrences of \<^verbatim>\<open>2\<close> that follow fail. And on a store that
  refuses to unlink, both occurrences of an id fail, since \<open>deleteTrack\<close> reports a refused
  unlink as false.
\<close>

theorem deleteMultipleTracks_duplicate_counterexample:
  "getTrackById ex_store ''1'' = Inr (Some ex_tA)
   \<and> count_list [''./1'', ''1'', ''1''] ''1'' = 2
   \<and> fst (deleteMultipleTracks ex_store [''./1'', ''1'', ''1''])
       = Inr \<lparr>success = [''./1''], failed = [''1'', ''1'']\<rparr>
   \<and> getTrackById ex_crossed ''2'' = Inr (Some ex_tB)
   \<and> count_list [''1'', ''2'', ''2''] ''2'' = 2
   \<and> fst (deleteMultipleTracks ex_crossed [''1'', ''2'', ''2''])
       = Inr \<lparr>success = [''1''], failed = [''2'', ''2'']\<rparr>
   \<and> getTrackById ex_readonly ''1'' = Inr (Some ex_tA)
   \<and> count_list [''1'', ''1''] ''1'' = 2
   \<and> fst (deleteMultipleTracks ex_readonly [''1'', ''1''])
       = Inr \<lparr>success = [], failed = [''1'', ''1'']\<rparr>"
proof -
  have a: "getTrackById ex_store ''1'' = Inr (Some ex_tA)" by code_simp
  have b: "fst (deleteMultipleTracks ex_store [''./1'', ''1'', ''1''])
       = Inr \<lparr>success = [''./1''], failed = [''1'', ''1'']\<rparr>" by code_simp
  have c: "getTrackById ex_crossed ''2'' = Inr (Some ex_tB)" by code_simp
  have d: "fst (deleteMultipleTracks ex_crossed [''1'', ''2'', ''2''])
       = Inr \<lparr>success = [''1''], failed = [''2'', ''2'']\<rparr>" by code_simp
  have e: "getTrackById ex_readonly ''1'' = Inr (Some ex_tA)" by code_simp
  have f: "fst (deleteMultipleTracks ex_readonly [''1'', ''1''])
       = Inr \<lparr>success = [], failed = [''1'', ''1'']\<rparr>" by code_simp
  from a b c d e f show ?thesis by simp
qed

subsection \<open>The asset lifecycle\<close>

text \<open>
  C8, as amended. \<open>deleteTrack\<close> returns false and changes nothing when the record is not
  found, and also when the record is found and the unlink of its file is refused. When the
  record is found and its file can be unlinked, it returns true and the record file is
  gone; the audio file that the record names is gone too when it can be unlinked, and when
  that is refused \<open>deleteTrack\<close> still returns true and removes the record file alone.
  \<open>deleteAudioFile\<close> on a track without an audio file returns false and leaves the store
  unchanged.
\<close>

theorem asset_lifecycle:
  "(getTrackById s i = Inr None \<longrightarrow> deleteTrack s i = (Inr False, s))
   \<and> (getTrackById s i = Inr (Some t) \<and> denied s UnlinkA (File (trackPath s i))
        \<longrightarrow> deleteTrack s i = (Inr False, s))
   \<and> (getTrackById s i = Inr (Some t) \<and> \<not> denied s UnlinkA (File (trackPath s i))
        \<longrightarrow> fst (deleteTrack s i) = Inr True
            \<and> map_of (disk (snd (deleteTrack s i))) (trackPath s i) = None)
   \<and> (getTrackById s i = Inr (Some t) \<and> \<not> denied s UnlinkA (File (trackPath s i))
        \<and> audioFile t = Some f \<and> f \<noteq> [] \<and> \<not> denied s UnlinkA (File (audioPath s f))
        \<longrightarrow> map_of (disk (snd (deleteTrack s i))) (audioPath s f) = None)
   \<and> (getTrackById s i = Inr (Some t) \<and> \<not> denied s UnlinkA (File (trackPath s i))
        \<and> audioFile t = Some f \<and> denied s UnlinkA (File (audioPath s f))
        \<longrightarrow> fst (deleteTrack s i) = Inr True
            \<and> disk (snd (deleteTrack s i)) = AList.delete (trackPath s i) (disk s))
   \<and> (getTrackById s i = Inr (Some t) \<and> \<not> truthy (audioFile t)
        \<longrightarrow> deleteAudioFile s now i = (Inr False, s))"
proof -
  have a: "deleteTrack s i = (Inr False, s)" if "getTrackById s i = Inr None"
    using that by (rule deleteTrack_absent)
  have a': "deleteTrack s i = (Inr False, s)"
    if "getTrackById s i = Inr (Some t)" "denied s UnlinkA (File (trackPath s i))"
    using that by (rule deleteTrack_refused)
  have b: "fst (deleteTrack s i) = Inr True
           \<and> map_of (disk (snd (deleteTrack s i))) (trackPath s i) = None"
    if "getTrackById s i = Inr (Some t)" "\<not> denied s UnlinkA (File (trackPath s i))"
    by (simp add: deleteTrack_present [OF that] map_of_diskAfterDelete_own)
  have c: "map_of (disk (snd (deleteTrack s i))) (audioPath s f) = None"
    if "getTrackById s i = Inr (Some t)" "\<not> denied s UnlinkA (File (trackPath s i))"
      "audioFile t = Some f" "f \<noteq> []" "\<not> denied s UnlinkA (File (audioPath s f))"
    using that(3,4,5)
    by (simp add: deleteTrack_present [OF that(1,2)] diskAfterDelete_def map_of_AList_delete_same)
  have d: "disk (snd (deleteTrack s i)) = AList.delete (trackPath s i) (disk s)"
    if "getTrackById s i = Inr (Some t)" "\<not> denied s UnlinkA (File (trackPath s i))"
      "audioFile t = Some f" "denied s UnlinkA (File (audioPath s f))"
    using that(3,4) by (simp add: deleteTrack_present [OF that(1,2)] diskAfterDelete_def)
  have e: "deleteAudioFile s now i = (Inr False, s)"
    if "getTrackById s i = Inr (Some t)" "\<not> truthy (audioFile t)"
    using that
    by (auto simp: deleteAudioFile_def deleteAudioFile_try_def truthy_def split: option.splits)
  from a a' b c d e show ?thesis by blast
qed

theorem asset_lifecycle_witness:
  "getTrackById ex_store ''9'' = Inr None \<and> deleteTrack ex_store ''9'' = (Inr False, ex_store)
   \<and> getTrackById ex_readonly ''1'' = Inr (Some ex_tA)
   \<and> denied ex_readonly UnlinkA (File (trackPath ex_readonly ''1''))
   \<and> deleteTrack ex_readonly ''1'' = (Inr False, ex_readonly)
   \<and> getTrackById ex_store ''1'' = Inr (Some ex_tA)
   \<and> \<not> denied ex_store UnlinkA (File (trackPath ex_store ''1''))
   \<and> audioFile ex_tA = Some ''1.mp3''
   \<and> \<not> denied ex_store UnlinkA (File (audioPath ex_store ''1.mp3''))
   \<and> map_of (disk ex_store) (audioPath ex_store ''1.mp3'') = Some NotJson
   \<and> fst (deleteTrack ex_store ''1'') = Inr True
   \<and> map_of (disk (snd (deleteTrack ex_store ''1''))) (trackPath ex_store ''1'') = None
   \<and> map_of (disk (snd (deleteTrack ex_store ''1''))) (audioPath ex_store ''1.mp3'') = None
   \<and> getTrackById ex_uploads_locked ''1'' = Inr (Some ex_tA)
   \<and> denied ex_uploads_locked UnlinkA (File (audioPath ex_uploads_locked ''1.mp3''))
   \<and> fst (deleteTrack ex_uploads_locked ''1'') = Inr True
   \<and> disk (snd (deleteTrack ex_uploads_locked ''1''))
       = AList.delete (trackPath ex_uploads_locked ''1'') (disk ex_uploads_locked)
   \<and> getTrackById ex_store ''2'' = Inr (Some ex_tB) \<and> \<not> truthy (audioFile ex_tB)
   \<and> deleteAudioFile ex_store ''2024-02-01T00:00:00.000Z'' ''2'' = (Inr False, ex_store)"
proof -
  have g9: "getTrackById ex_store ''9'' = Inr None" by code_simp
  have g1: "getTrackById ex_store ''1'' = Inr (Some ex_tA)" by code_simp
  have g2: "getTrackById ex_store ''2'' = Inr (Some ex_tB)" by code_simp
  have l1: "getTrackById ex_uploads_locked ''1'' = Inr (Some ex_tA)" by code_simp
  have o1: "getTrackById ex_readonly ''1'' = Inr (Some ex_tA)" by code_simp
  have o2: "denied ex_readonly UnlinkA (File (trackPath ex_readonly ''1''))"
    by (simp add: ex_readonly_def)
  have u1: "\<not> denied ex_store UnlinkA (File (trackPath ex_store ''1''))"
    and u2: "\<not> denied ex_store UnlinkA (File (audioPath ex_store ''1.mp3''))"
    by (simp_all add: ex_store_def)
  have u3: "map_of (disk ex_store) (audioPath ex_store ''1.mp3'') = Some NotJson"
    by code_simp
  have k1: "\<not> denied ex_uploads_locked UnlinkA (File (trackPath ex_uploads_locked ''1''))"
    by code_simp
  have k2: "denied ex_uploads_locked UnlinkA (File (audioPath ex_uploads_locked ''1.mp3''))"
    by code_simp
  have f1: "audioFile ex_tA = Some ''1.mp3''" and f1': "''1.mp3'' \<noteq> []"
    and f2: "\<not> truthy (audioFile ex_tB)"
    by (simp_all add: ex_tA_def ex_tB_def truthy_def)
  note th = asset_lifecycle [where now = "''2024-02-01T00:00:00.000Z''"]
  from th [of ex_store "''9''" ex_tA "''1.mp3''"] g9
  have r1: "deleteTrack ex_store ''9'' = (Inr False, ex_store)" by simp
  from th [of ex_readonly "''1''" ex_tA "''1.mp3''"] o1 o2
  have r0: "deleteTrack ex_readonly ''1'' = (Inr False, ex_readonly)" by simp
  from th [of ex_store "''1''" ex_tA "''1.mp3''"] g1 u1 u2 f1 f1'
  have r2: "fst (deleteTrack ex_store ''1'') = Inr True"
    "map_of (disk (snd (deleteTrack ex_store ''1''))) (trackPath ex_store ''1'') = None"
    "map_of (disk (snd (deleteTrack ex_store ''1''))) (audioPath ex_store ''1.mp3'') = None"
    by simp_all
  from th [of ex_uploads_locked "''1''" ex_tA "''1.mp3''"] l1 k1 k2 f1
  have r3: "fst (deleteTrack ex_uploads_locked ''1'') = Inr True"
    "disk (snd (deleteTrack ex_uploads_locked ''1''))
       = AList.delete (trackPath ex_uploads_locked ''1'') (disk ex_uploads_locked)"
    by simp_all
  from th [of ex_store "''2''" ex_tB "''1.mp3''"] g2 f2
  have r4: "deleteAudioFile ex_store ''2024-02-01T00:00:00.000Z'' ''2'' = (Inr False, ex_store)"
    by simp
  from g9 g1 g2 l1 o1 o2 u1 u2 u3 k2 f1 f2 r0 r1 r2 r3 r4 show ?thesis by simp
qed

text \<open>
  The claim as stated, true whenever the record existed, fails on a store that refuses to
  unlink: the record is found, and \<open>deleteTrack\<close> returns false.
\<close>

theorem deleteTrack_refused_counterexample:
  "getTrackById ex_readonly ''1'' = Inr (Some ex_tA)
   \<and> fst (deleteTrack ex_readonly ''1'') = Inr False"
proof -
  have a: "getTrackById ex_readonly ''1'' = Inr (Some ex_tA)" by code_simp
  have b: "fst (deleteTrack ex_readonly ''1'') = Inr False" by code_simp
  from a b show ?thesis by simp
qed

subsection \<open>Sorting and slicing\<close>

lemma length_js_insert: "length (js_insert cmp x ys) = Suc (length ys)"
  by (induction ys) auto


lemma length_js_sort: "length (js_sort cmp xs) = length xs"
  by (induction xs) (simp_all add: js_sort_def length_js_insert)


lemma length_sortTracks: "length (sortTracks q ts) = length ts"
  by (simp add: sortTracks_def length_js_sort Let_def split: option.split)


lemma ToIntegerOrInfinity_nonneg: "0 \<le> x \<Longrightarrow> ToIntegerOrInfinity x = \<lfloor>x\<rfloor>"
  by (simp add: ToIntegerOrInfinity_def)

lemma ToIntegerOrInfinity_of_int [simp]: "ToIntegerOrInfinity (of_int a) = a"
  by (simp add: ToIntegerOrInfinity_def)

lemma take_drop_min:
  assumes "0 \<le> a" and "a \<le> b"
  shows "take (nat (min b (int (length xs)) - min a (int (length xs)))) (drop (nat (min a (int (length xs)))) xs)
        = take (nat (b - a)) (drop (nat a) xs)"
proof (cases "a \<le> int (length xs)")
  case True
  show ?thesis
  proof (cases "b \<le> int (length xs)")
    case True
    with \<open>a \<le> int (length xs)\<close> show ?thesis by (simp add: min_def)
  next
    case False
    with \<open>a \<le> int (length xs)\<close> assms show ?thesis by (simp add: min_def)
  qed
next
  case False
  with assms show ?thesis by (simp add: min_def)
qed

lemma js_slice_nonneg:
  assumes "0 \<le> a" and "a \<le> b"
  shows "js_slice xs a b = take (nat (\<lfloor>b\<rfloor> - \<lfloor>a\<rfloor>)) (drop (nat \<lfloor>a\<rfloor>) xs)"
proof -
  have f: "0 \<le> \<lfloor>a\<rfloor>" "\<lfloor>a\<rfloor> \<le> \<lfloor>b\<rfloor>" "0 \<le> \<lfloor>b\<rfloor>"
    using assms by (simp_all add: floor_mono)
  have "0 \<le> b" using assms by simp
  with assms(1) f show ?thesis
    by (simp add: js_slice_def Let_def ToIntegerOrInfinity_nonneg take_drop_min)
qed


lemma filter_upt_interval:
  assumes "0 \<le> a"
  shows "filter (\<lambda>i. a \<le> int i \<and> int i < b) [0..<n] = [nat a..<min (nat b) n]"
proof (induction n)
  case 0
  then show ?case by simp
next
  case (Suc n)
  consider "a \<le> int n \<and> int n < b" | "\<not> int n < b" | "int n < b \<and> \<not> a \<le> int n" by blast
  then show ?case
  proof cases
    case 1
    then have "min (nat b) (Suc n) = Suc n" "min (nat b) n = n" "nat a \<le> n"
      using assms by auto
    with 1 Suc show ?thesis by simp
  next
    case 2
    then have "min (nat b) (Suc n) = nat b" "min (nat b) n = nat b"
      by auto
    with 2 Suc show ?thesis by simp
  next
    case 3
    then have "min (nat b) (Suc n) = Suc n" "min (nat b) n = n" "Suc n \<le> nat a"
      using assms by auto
    with 3 Suc show ?thesis by simp
  qed
qed

lemma map_nth_upt:
  assumes "j \<le> length xs"
  shows "map (\<lambda>i. xs ! i) [i..<j] = take (j - i) (drop i xs)"
proof (rule nth_equalityI)
  show "length (map (\<lambda>i. xs ! i) [i..<j]) = length (take (j - i) (drop i xs))"
    using assms by simp
next
  fix k assume "k < length (map (\<lambda>i. xs ! i) [i..<j])"
  then have "k < j - i" by simp
  then show "map (\<lambda>i. xs ! i) [i..<j] ! k = take (j - i) (drop i xs) ! k"
    using assms by simp
qed

lemma window_of_int:
  "window xs (of_int a) (of_int b)
     = map (\<lambda>i. xs ! i) (filter (\<lambda>i. a \<le> int i \<and> int i < b) [0..<length xs])"
proof -
  have "(\<lambda>i. real_of_int a \<le> real i \<and> real i < real_of_int b) = (\<lambda>i. a \<le> int i \<and> int i < b)"
  proof
    fix i
    have "real i = real_of_int (int i)" by simp
    then show "(real_of_int a \<le> real i \<and> real i < real_of_int b) = (a \<le> int i \<and> int i < b)"
      by (simp only: of_int_le_iff of_int_less_iff)
  qed
  then show ?thesis by (simp add: window_def)
qed

lemma window_nonneg:
  assumes "0 \<le> a"
  shows "window xs (of_int a) (of_int b) = take (nat (b - a)) (drop (nat a) xs)"
proof -
  have "window xs (of_int a) (of_int b) = take (min (nat b) (length xs) - nat a) (drop (nat a) xs)"
    by (simp add: window_of_int filter_upt_interval [OF assms] map_nth_upt)
  also have "\<dots> = take (nat (b - a)) (drop (nat a) xs)"
  proof (cases "nat b \<le> length xs")
    case True
    have "nat b - nat a = nat (b - a)"
      using assms by arith
    with True show ?thesis by (simp add: min_def)
  next
    case False
    then have "length xs - nat a \<le> nat (b - a)"
      using assms by arith
    with False show ?thesis by (simp add: min_def)
  qed
  finally show ?thesis .
qed

lemma js_slice_window:
  "0 \<le> a \<Longrightarrow> a \<le> b \<Longrightarrow> js_slice xs (of_int a) (of_int b) = window xs (of_int a) (of_int b)"
  by (simp add: js_slice_nonneg window_nonneg)

subsection \<open>Filter, sort, paginate\<close>

text \<open>
  C2, as amended. On a store that can be read, for a query whose page and limit in force
  (an absent or zero parameter replaced by 1 and 10) are integers of at least 1,
  \<open>getTracks\<close> returns the filtered tracks, sorted, cut to the positions from
  \<open>(page - 1) * limit\<close> up to but not including \<open>(page - 1) * limit + limit\<close>; \<open>total\<close>
  is the number of filtered tracks; and a page that starts at or beyond that number is
  empty.
\<close>

theorem getTracks_filter_sort_paginate:
  assumes "loadAll s = Inr stored"
    and "pageOf q \<in> \<int>" and "limitOf q \<in> \<int>"
    and "1 \<le> pageOf q" and "1 \<le> limitOf q"
  shows "getTracks s q =
           Inr \<lparr>tracks = window (sortTracks q (filter (satisfiesFilters q) stored))
                            ((pageOf q - 1) * limitOf q) ((pageOf q - 1) * limitOf q + limitOf q),
                total = length (filter (satisfiesFilters q) stored)\<rparr>
         \<and> (real (length (filter (satisfiesFilters q) stored)) \<le> (pageOf q - 1) * limitOf q
              \<longrightarrow> window (sortTracks q (filter (satisfiesFilters q) stored))
                    ((pageOf q - 1) * limitOf q) ((pageOf q - 1) * limitOf q + limitOf q) = [])"
proof -
  let ?xs = "sortTracks q (filter (satisfiesFilters q) stored)"
  from assms(2) obtain p :: int where p: "pageOf q = of_int p" by (rule Ints_cases)
  from assms(3) obtain l :: int where l: "limitOf q = of_int l" by (rule Ints_cases)
  have p1: "1 \<le> p" and l1: "1 \<le> l"
    using assms(4,5) unfolding p l by simp_all
  define a where "a = (p - 1) * l"
  have a: "0 \<le> a" and b: "a \<le> a + l"
    using p1 l1 by (simp_all add: a_def)
  have ra: "(pageOf q - 1) * limitOf q = of_int a"
    by (simp add: p l a_def)
  have rb: "real_of_int a + limitOf q = of_int (a + l)"
    by (simp add: l)
  have "getTracks s q = Inr \<lparr>tracks = window ?xs (of_int a) (of_int (a + l)),
          total = length (filter (satisfiesFilters q) stored)\<rparr>"
    unfolding getTracks_loaded [OF assms(1)] ra rb
    by (simp only: js_slice_window [OF a b] length_sortTracks)
  moreover have "window ?xs (of_int a) (of_int (a + l)) = []"
    if "real (length (filter (satisfiesFilters q) stored)) \<le> of_int a"
  proof -
    have "real (length (filter (satisfiesFilters q) stored))
            = real_of_int (int (length (filter (satisfiesFilters q) stored)))" by simp
    with that have "int (length (filter (satisfiesFilters q) stored)) \<le> a"
      by (simp only: of_int_le_iff)
    then have "drop (nat a) ?xs = []"
      using a by (simp add: length_sortTracks)
    then show ?thesis
      by (simp only: window_nonneg [OF a] take_Nil)
  qed
  ultimately show ?thesis unfolding ra rb by blast
qed

theorem getTracks_filter_sort_paginate_witness:
  "loadAll ex_store = Inr [ex_tA, ex_tB, ex_tC]
   \<and> pageOf (ex_query\<lparr>page := Some 2, limit := Some 2\<rparr>) \<in> \<int>
   \<and> limitOf (ex_query\<lparr>page := Some 2, limit := Some 2\<rparr>) \<in> \<int>
   \<and> 1 \<le> pageOf (ex_query\<lparr>page := Some 2, limit := Some 2\<rparr>)
   \<and> 1 \<le> limitOf (ex_query\<lparr>page := Some 2, limit := Some 2\<rparr>)
   \<and> getTracks ex_store (ex_query\<lparr>page := Some 2, limit := Some 2\<rparr>)
       = Inr \<lparr>tracks = [ex_tA], total = 3\<rparr>
   \<and> pageOf (ex_query\<lparr>page := Some 5, limit := Some 2\<rparr>) \<in> \<int>
   \<and> limitOf (ex_query\<lparr>page := Some 5, limit := Some 2\<rparr>) \<in> \<int>
   \<and> 1 \<le> pageOf (ex_query\<lparr>page := Some 5, limit := Some 2\<rparr>)
   \<and> 1 \<le> limitOf (ex_query\<lparr>page := Some 5, limit := Some 2\<rparr>)
   \<and> getTracks ex_store (ex_query\<lparr>page := Some 5, limit := Some 2\<rparr>)
       = Inr \<lparr>tracks = [], total = 3\<rparr>"
proof -
  let ?q = "ex_query\<lparr>page := Some 2, limit := Some 2\<rparr>"
  let ?q' = "ex_query\<lparr>page := Some 5, limit := Some 2\<rparr>"
  have l: "loadAll ex_store = Inr [ex_tA, ex_tB, ex_tC]" by code_simp
  have p: "pageOf ?q = 2" "limitOf ?q = 2" "pageOf ?q' = 5" "limitOf ?q' = 2"
    by (simp_all add: pageOf_def limitOf_def)
  have i: "pageOf ?q \<in> \<int>" "limitOf ?q \<in> \<int>" "pageOf ?q' \<in> \<int>" "limitOf ?q' \<in> \<int>"
    unfolding p by simp_all
  have o: "1 \<le> pageOf ?q" "1 \<le> limitOf ?q" "1 \<le> pageOf ?q'" "1 \<le> limitOf ?q'"
    unfolding p by simp_all
  have w: "window (sortTracks ?q (filter (satisfiesFilters ?q) [ex_tA, ex_tB, ex_tC])) 2 4 = [ex_tA]"
    by code_simp
  have n: "length (filter (satisfiesFilters ?q) [ex_tA, ex_tB, ex_tC]) = 3"
    "length (filter (satisfiesFilters ?q') [ex_tA, ex_tB, ex_tC]) = 3"
    by code_simp+
  from getTracks_filter_sort_paginate [OF l i(1) i(2) o(1) o(2)] p w n
  have r: "getTracks ex_store ?q = Inr \<lparr>tracks = [ex_tA], total = 3\<rparr>"
    by simp
  from getTracks_filter_sort_paginate [OF l i(3) i(4) o(3) o(4)] p n
  have r': "getTracks ex_store ?q' = Inr \<lparr>tracks = [], total = 3\<rparr>"
    by simp
  from l i o r r' show ?thesis by simp
qed

text \<open>
  The claim as stated, for every query, fails on a negative page, on a negative limit and
  on a limit that is not an integer. With \<open>page\<close> -1 and \<open>limit\<close> 1 the page is out of
  range and the positions from -2 up to -1 hold no element of the three sorted tracks, yet
  \<open>getTracks\<close> returns the second of them: \<^verbatim>\<open>slice(-2, -1)\<close> counts from the end of the
  array. With \<open>limit\<close> -1 on the first page no position lies between 0 and -1, and
  \<^verbatim>\<open>slice(0, -1)\<close> returns all tracks but the last. With \<open>limit\<close> 1.5 on the first page
  the positions from 0 up to 1.5 are 0 and 1, and \<^verbatim>\<open>slice(0, 1.5)\<close>, which truncates its
  bounds, returns the first track alone.
\<close>

theorem getTracks_negative_page_counterexample:
  "loadAll ex_store = Inr [ex_tA, ex_tB, ex_tC]
   \<and> sortTracks (ex_query\<lparr>page := Some (- 1), limit := Some 1\<rparr>)
        (filter (satisfiesFilters (ex_query\<lparr>page := Some (- 1), limit := Some 1\<rparr>))
           [ex_tA, ex_tB, ex_tC])
       = [ex_tC, ex_tB, ex_tA]
   \<and> window [ex_tC, ex_tB, ex_tA] ((- 1 - 1) * 1) ((- 1 - 1) * 1 + 1) = []
   \<and> getTracks ex_store (ex_query\<lparr>page := Some (- 1), limit := Some 1\<rparr>)
       = Inr \<lparr>tracks = [ex_tB], total = 3\<rparr>
   \<and> window [ex_tC, ex_tB, ex_tA] ((1 - 1) * (- 1)) ((1 - 1) * (- 1) + (- 1)) = []
   \<and> getTracks ex_store (ex_query\<lparr>limit := Some (- 1)\<rparr>)
       = Inr \<lparr>tracks = [ex_tC, ex_tB], total = 3\<rparr>
   \<and> sortTracks (ex_query\<lparr>limit := Some (3 / 2)\<rparr>)
        (filter (satisfiesFilters (ex_query\<lparr>limit := Some (3 / 2)\<rparr>)) [ex_tA, ex_tB, ex_tC])
       = [ex_tC, ex_tB, ex_tA]
   \<and> pageOf (ex_query\<lparr>limit := Some (3 / 2)\<rparr>) = 1
   \<and> limitOf (ex_query\<lparr>limit := Some (3 / 2)\<rparr>) = 3 / 2
   \<and> window [ex_tC, ex_tB, ex_tA] ((1 - 1) * (3 / 2)) ((1 - 1) * (3 / 2) + 3 / 2)
       = [ex_tC, ex_tB]
   \<and> getTracks ex_store (ex_query\<lparr>limit := Some (3 / 2)\<rparr>)
       = Inr \<lparr>tracks = [ex_tC], total = 3\<rparr>"
proof -
  have a: "loadAll ex_store = Inr [ex_tA, ex_tB, ex_tC]" by code_simp
  have e: "window [ex_tC, ex_tB, ex_tA] ((1 - 1) * (- 1)) ((1 - 1) * (- 1) + (- 1)) = []"
    by (simp add: window_def)
  have f: "getTracks ex_store (ex_query\<lparr>limit := Some (- 1)\<rparr>)
       = Inr \<lparr>tracks = [ex_tC, ex_tB], total = 3\<rparr>" by code_simp
  have b: "sortTracks (ex_query\<lparr>page := Some (- 1), limit := Some 1\<rparr>)
        (filter (satisfiesFilters (ex_query\<lparr>page := Some (- 1), limit := Some 1\<rparr>))
           [ex_tA, ex_tB, ex_tC])
       = [ex_tC, ex_tB, ex_tA]" by code_simp
  have c: "window [ex_tC, ex_tB, ex_tA] ((- 1 - 1) * 1) ((- 1 - 1) * 1 + 1) = []"
    by (simp add: window_def)
  have d: "getTracks ex_store (ex_query\<lparr>page := Some (- 1), limit := Some 1\<rparr>)
       = Inr \<lparr>tracks = [ex_tB], total = 3\<rparr>" by code_simp
  have g: "sortTracks (ex_query\<lparr>limit := Some (3 / 2)\<rparr>)
        (filter (satisfiesFilters (ex_query\<lparr>limit := Some (3 / 2)\<rparr>)) [ex_tA, ex_tB, ex_tC])
       = [ex_tC, ex_tB, ex_tA]" by code_simp
  have h: "pageOf (ex_query\<lparr>limit := Some (3 / 2)\<rparr>) = 1"
    "limitOf (ex_query\<lparr>limit := Some (3 / 2)\<rparr>) = 3 / 2"
    by (simp_all add: pageOf_def limitOf_def ex_query_def)
  have i: "window [ex_tC, ex_tB, ex_tA] ((1 - 1) * (3 / 2)) ((1 - 1) * (3 / 2) + 3 / 2)
       = [ex_tC, ex_tB]" by code_simp
  have j: "getTracks ex_store (ex_query\<lparr>limit := Some (3 / 2)\<rparr>)
       = Inr \<lparr>tracks = [ex_tC], total = 3\<rparr>" by code_simp
  from a b c d e f g h i j show ?thesis by simp
qed

subsection \<open>The filters\<close>







subsection \<open>The order of the result\<close>

lemma js_sort_Cons: "js_sort cmp (x # xs) = js_insert cmp x (js_sort cmp xs)"
  by (simp add: js_sort_def)

lemma js_sort_Nil: "js_sort cmp [] = []"
  by (simp add: js_sort_def)

lemma js_insert_date:
  assumes "validDate (createdAt x)" and "\<forall>y \<in> set ys. validDate (createdAt y)"
  shows "js_insert (\<lambda>a b. number_minus (Date_getTime (createdAt b)) (Date_getTime (createdAt a))) x ys
         = insort_key (\<lambda>t. - timeOf t) x ys"
  using assms
  by (induction ys) (auto simp: number_minus_def validDate_def timeOf_def split: option.splits)

lemma js_sort_date:
  assumes "\<forall>y \<in> set ys. validDate (createdAt y)"
  shows "js_sort (\<lambda>a b. number_minus (Date_getTime (createdAt b)) (Date_getTime (createdAt a))) ys
         = sort_key (\<lambda>t. - timeOf t) ys"
  using assms
  by (induction ys) (simp_all add: js_sort_Nil js_sort_Cons js_insert_date)

lemma sortTracks_default_sorted:
  assumes "sort_param q = None" and "\<forall>y \<in> set ys. validDate (createdAt y)"
  shows "sorted_wrt (\<lambda>a b. timeOf b \<le> timeOf a) (sortTracks q ys)"
proof -
  have "sorted (map (\<lambda>t. - timeOf t) (sort_key (\<lambda>t. - timeOf t) ys))"
    by (rule sorted_sort_key)
  then have "sorted_wrt (\<lambda>a b. - timeOf a \<le> - timeOf b) (sort_key (\<lambda>t. - timeOf t) ys)"
    by (simp add: sorted_map)
  then show ?thesis
    by (simp add: sortTracks_def assms(1) js_sort_date [OF assms(2)])
qed

lemma sorted_wrt_js_slice: "sorted_wrt R xs \<Longrightarrow> sorted_wrt R (js_slice xs a b)"
  by (simp add: js_slice_def Let_def sorted_wrt_take sorted_wrt_drop)

lemma localeCompare_abc:
  "localeCompare ''a'' ''b'' = - 1" "localeCompare ''b'' ''a'' = 1"
  "localeCompare ''a'' ''c'' = - 1" "localeCompare ''c'' ''a'' = 1"
  "localeCompare ''b'' ''c'' = - 1" "localeCompare ''c'' ''b'' = 1"
  by code_simp+

lemma satisfiesFilters_no_filter:
  "search q = None \<Longrightarrow> genre q = None \<Longrightarrow> artist_param q = None \<Longrightarrow> satisfiesFilters q t"
  by (simp add: satisfiesFilters_def)

lemma js_slice_first_page: "length xs \<le> 10 \<Longrightarrow> js_slice xs 0 10 = xs"
  by (simp add: js_slice_def Let_def ToIntegerOrInfinity_def)

text \<open>
  C4. Over three records with the titles b, a, c and a query that only sets \<open>sort\<close> to
  title, the order asc (or no order) returns the records with the titles a, b, c and the
  order desc returns them reversed. Without \<open>sort\<close>, on a store whose records all have a
  valid \<open>createdAt\<close>, the tracks returned are in descending order of their creation time.
\<close>

theorem getTracks_sorting:
  "(loadAll s = Inr [t1, t2, t3] \<and> title t1 = ''b'' \<and> title t2 = ''a'' \<and> title t3 = ''c''
      \<and> search q = None \<and> genre q = None \<and> artist_param q = None
      \<and> page q = None \<and> limit q = None \<and> sort_param q = Some Title
    \<longrightarrow> getTracks s (q\<lparr>order_param := Some Asc\<rparr>) = Inr \<lparr>tracks = [t2, t1, t3], total = 3\<rparr>
        \<and> getTracks s (q\<lparr>order_param := None\<rparr>) = Inr \<lparr>tracks = [t2, t1, t3], total = 3\<rparr>
        \<and> getTracks s (q\<lparr>order_param := Some Desc\<rparr>)
            = Inr \<lparr>tracks = rev [t2, t1, t3], total = 3\<rparr>)
   \<and> (loadAll s' = Inr stored \<and> (\<forall>t \<in> set stored. validDate (createdAt t))
      \<and> sort_param q' = None
    \<longrightarrow> (\<exists>r. getTracks s' q' = Inr r \<and> sorted_wrt (\<lambda>a b. timeOf b \<le> timeOf a) (tracks r)))"
proof -
  have ordered: "getTracks s (q\<lparr>order_param := ord\<rparr>) =
      Inr \<lparr>tracks = (if ord = Some Desc then rev [t2, t1, t3] else [t2, t1, t3]), total = 3\<rparr>"
    if l: "loadAll s = Inr [t1, t2, t3]"
      and t: "title t1 = ''b''" "title t2 = ''a''" "title t3 = ''c''"
      and f: "search q = None" "genre q = None" "artist_param q = None"
      and p: "page q = None" "limit q = None" and k: "sort_param q = Some Title"
    for ord
  proof -
    let ?q = "q\<lparr>order_param := ord\<rparr>"
    have 1: "filter (satisfiesFilters ?q) [t1, t2, t3] = [t1, t2, t3]"
      using f by (simp add: satisfiesFilters_no_filter)
    have 2: "pageOf ?q = 1" "limitOf ?q = 10"
      using p by (simp_all add: pageOf_def limitOf_def)
    have 3: "sortTracks ?q [t1, t2, t3] = (if ord = Some Desc then rev [t2, t1, t3] else [t2, t1, t3])"
    proof (cases "ord = Some Desc")
      case True
      then show ?thesis
        using k t
        by (simp add: sortTracks_def fieldValue_def js_sort_Cons js_sort_Nil localeCompare_abc)
    next
      case False
      then have "(case ord of None \<Rightarrow> Asc | Some v \<Rightarrow> v) = Asc"
        by (cases ord) (auto intro: sort_order.exhaust)
      then show ?thesis
        using k t False
        by (simp add: sortTracks_def fieldValue_def js_sort_Cons js_sort_Nil localeCompare_abc)
    qed
    show ?thesis
      unfolding getTracks_loaded [OF l, of ?q] 1 2 3 by (simp add: js_slice_first_page)
  qed
  have default: "\<exists>r. getTracks s' q' = Inr r \<and> sorted_wrt (\<lambda>a b. timeOf b \<le> timeOf a) (tracks r)"
    if l: "loadAll s' = Inr stored" and v: "\<forall>t \<in> set stored. validDate (createdAt t)"
      and k: "sort_param q' = None"
  proof -
    have "\<forall>t \<in> set (filter (satisfiesFilters q') stored). validDate (createdAt t)"
      using v by simp
    from sortTracks_default_sorted [OF k this]
    have "sorted_wrt (\<lambda>a b. timeOf b \<le> timeOf a)
            (js_slice (sortTracks q' (filter (satisfiesFilters q') stored))
               ((pageOf q' - 1) * limitOf q') ((pageOf q' - 1) * limitOf q' + limitOf q'))"
      by (rule sorted_wrt_js_slice)
    then show ?thesis
      unfolding getTracks_loaded [OF l, of q'] by simp
  qed
  from ordered [of "Some Asc"] ordered [of None] ordered [of "Some Desc"] default
  show ?thesis by simp
qed

theorem getTracks_sorting_witness:
  "loadAll ex_store = Inr [ex_tA, ex_tB, ex_tC]
   \<and> title ex_tA = ''b'' \<and> title ex_tB = ''a'' \<and> title ex_tC = ''c''
   \<and> getTracks ex_store (ex_query\<lparr>sort_param := Some Title, order_param := Some Asc\<rparr>)
       = Inr \<lparr>tracks = [ex_tB, ex_tA, ex_tC], total = 3\<rparr>
   \<and> getTracks ex_store (ex_query\<lparr>sort_param := Some Title, order_param := Some Desc\<rparr>)
       = Inr \<lparr>tracks = [ex_tC, ex_tA, ex_tB], total = 3\<rparr>
   \<and> validDate (createdAt ex_tA) \<and> validDate (createdAt ex_tB) \<and> validDate (createdAt ex_tC)
   \<and> getTracks ex_store ex_query = Inr \<lparr>tracks = [ex_tC, ex_tB, ex_tA], total = 3\<rparr>
   \<and> sorted_wrt (\<lambda>a b. timeOf b \<le> timeOf a) [ex_tC, ex_tB, ex_tA]"
proof -
  let ?q = "ex_query\<lparr>sort_param := Some Title\<rparr>"
  have l: "loadAll ex_store = Inr [ex_tA, ex_tB, ex_tC]" by code_simp
  have t: "title ex_tA = ''b''" "title ex_tB = ''a''" "title ex_tC = ''c''"
    by (simp_all add: ex_tA_def ex_tB_def ex_tC_def)
  have f: "search ?q = None" "genre ?q = None" "artist_param ?q = None" "page ?q = None"
    "limit ?q = None" "sort_param ?q = Some Title" "sort_param ex_query = None"
    by (simp_all add: ex_query_def)
  have v: "validDate (createdAt ex_tA)" "validDate (createdAt ex_tB)" "validDate (createdAt ex_tC)"
    by code_simp+
  have d: "getTracks ex_store ex_query = Inr \<lparr>tracks = [ex_tC, ex_tB, ex_tA], total = 3\<rparr>"
    by code_simp
  note th = getTracks_sorting [of ex_store ex_tA ex_tB ex_tC ?q ex_store "[ex_tA, ex_tB, ex_tC]" ex_query]
  from th l t f
  have a: "getTracks ex_store (?q\<lparr>order_param := Some Asc\<rparr>)
             = Inr \<lparr>tracks = [ex_tB, ex_tA, ex_tC], total = 3\<rparr>"
    and b: "getTracks ex_store (?q\<lparr>order_param := Some Desc\<rparr>)
             = Inr \<lparr>tracks = [ex_tC, ex_tA, ex_tB], total = 3\<rparr>"
    by simp_all
  from th l v f obtain r where "getTracks ex_store ex_query = Inr r"
    and s: "sorted_wrt (\<lambda>a b. timeOf b \<le> timeOf a) (tracks r)"
    by auto
  with d have "sorted_wrt (\<lambda>a b. timeOf b \<le> timeOf a) [ex_tC, ex_tB, ex_tA]"
    by simp
  with l t a b v d show ?thesis by simp
qed

end
